theory Spec2Isabelle
  imports Main
begin

section \<open>Python strings\<close>

text \<open>
  A Python \<open>str\<close> is a sequence of code points, and a code point is an integer
  here. \<open>str\<close> turns a text written in this file into its code points. The character
  classes are Python's own, over all of Unicode: \<open>str.isspace\<close> (also the class \<open>\s\<close> of
  \<open>re\<close>), \<open>str.isdecimal\<close> (the class \<open>\d\<close>) and \<open>str.isalnum\<close> (with the underscore,
  the class \<open>\w\<close>, which decides \<open>\b\<close>). Their tables are those of the Unicode Character
  Database 14.0 that CPython 3.11 carries; the part beyond ASCII is tabled as sorted
  ranges, both ends included.
\<close>

type_synonym ustring = "int list"

definition codepoint :: "char \<Rightarrow> int" where
  "codepoint c = of_char c"

definition str :: "string \<Rightarrow> ustring" where
  "str cs = map codepoint cs"

fun in_ranges :: "(int \<times> int) list \<Rightarrow> int \<Rightarrow> bool" where
  "in_ranges [] c = False"
| "in_ranges ((lo, hi) # rs) c =
     (if c < lo then False else if c \<le> hi then True else in_ranges rs c)"

text \<open>A long table is cut into blocks, each with the last code point it covers.\<close>

fun in_blocks :: "(int \<times> (int \<times> int) list) list \<Rightarrow> int \<Rightarrow> bool" where
  "in_blocks [] c = False"
| "in_blocks ((b, rs) # bs) c = (if c \<le> b then in_ranges rs c else in_blocks bs c)"

definition whitespace :: "int list" where
  "whitespace =
     [9, 10, 11, 12, 13, 28, 29, 30, 31, 32, 133, 160, 5760, 8192, 8193, 8194, 8195, 8196,
      8197, 8198, 8199, 8200, 8201, 8202, 8232, 8233, 8239, 8287, 12288]"

definition isspace :: "int \<Rightarrow> bool" where
  "isspace c \<longleftrightarrow> c \<in> set whitespace"

text \<open>The decimal digits (general category Nd) from code point 128 up.\<close>

definition decimal_ranges :: "(int \<times> int) list" where
  "decimal_ranges =
     [(1632, 1641), (1776, 1785), (1984, 1993), (2406, 2415), (2534, 2543), (2662, 2671),
      (2790, 2799), (2918, 2927), (3046, 3055), (3174, 3183), (3302, 3311), (3430, 3439),
      (3558, 3567), (3664, 3673), (3792, 3801), (3872, 3881), (4160, 4169), (4240, 4249),
      (6112, 6121), (6160, 6169), (6470, 6479), (6608, 6617), (6784, 6793), (6800, 6809),
      (6992, 7001), (7088, 7097), (7232, 7241), (7248, 7257), (42528, 42537), (43216,
      43225), (43264, 43273), (43472, 43481), (43504, 43513), (43600, 43609), (44016,
      44025), (65296, 65305), (66720, 66729), (68912, 68921), (69734, 69743), (69872,
      69881), (69942, 69951), (70096, 70105), (70384, 70393), (70736, 70745), (70864,
      70873), (71248, 71257), (71360, 71369), (71472, 71481), (71904, 71913), (72016,
      72025), (72784, 72793), (73040, 73049), (73120, 73129), (92768, 92777), (92864,
      92873), (93008, 93017), (120782, 120831), (123200, 123209), (123632, 123641),
      (125264, 125273), (130032, 130041)]"

definition isdecimal :: "int \<Rightarrow> bool" where
  "isdecimal c \<longleftrightarrow> (if c < 128 then 48 \<le> c \<and> c \<le> 57 else in_ranges decimal_ranges c)"

text \<open>
  \<open>str.isalnum\<close> is the disjunction of \<open>isalpha\<close>, \<open>isdecimal\<close>, \<open>isdigit\<close> and
  \<open>isnumeric\<close>. The table holds the code points from 128 up for which one of the four
  holds.
\<close>

definition alnum_blocks :: "(int \<times> (int \<times> int) list) list" where
  "alnum_blocks =
     [(1522,
        [(170, 170), (178, 179), (181, 181), (185, 186), (188, 190), (192, 214), (216,
         246), (248, 705), (710, 721), (736, 740), (748, 748), (750, 750), (880, 884),
         (886, 887), (890, 893), (895, 895), (902, 902), (904, 906), (908, 908), (910,
         929), (931, 1013), (1015, 1153), (1162, 1327), (1329, 1366), (1369, 1369), (1376,
         1416), (1488, 1514), (1519, 1522)]),
      (2401,
        [(1568, 1610), (1632, 1641), (1646, 1647), (1649, 1747), (1749, 1749), (1765,
         1766), (1774, 1788), (1791, 1791), (1808, 1808), (1810, 1839), (1869, 1957),
         (1969, 1969), (1984, 2026), (2036, 2037), (2042, 2042), (2048, 2069), (2074,
         2074), (2084, 2084), (2088, 2088), (2112, 2136), (2144, 2154), (2160, 2183),
         (2185, 2190), (2208, 2249), (2308, 2361), (2365, 2365), (2384, 2384), (2392,
         2401)]),
      (2705,
        [(2406, 2415), (2417, 2432), (2437, 2444), (2447, 2448), (2451, 2472), (2474,
         2480), (2482, 2482), (2486, 2489), (2493, 2493), (2510, 2510), (2524, 2525),
         (2527, 2529), (2534, 2545), (2548, 2553), (2556, 2556), (2565, 2570), (2575,
         2576), (2579, 2600), (2602, 2608), (2610, 2611), (2613, 2614), (2616, 2617),
         (2649, 2652), (2654, 2654), (2662, 2671), (2674, 2676), (2693, 2701), (2703,
         2705)]),
      (2980,
        [(2707, 2728), (2730, 2736), (2738, 2739), (2741, 2745), (2749, 2749), (2768,
         2768), (2784, 2785), (2790, 2799), (2809, 2809), (2821, 2828), (2831, 2832),
         (2835, 2856), (2858, 2864), (2866, 2867), (2869, 2873), (2877, 2877), (2908,
         2909), (2911, 2913), (2918, 2927), (2929, 2935), (2947, 2947), (2949, 2954),
         (2958, 2960), (2962, 2965), (2969, 2970), (2972, 2972), (2974, 2975), (2979,
         2980)]),
      (3386,
        [(2984, 2986), (2990, 3001), (3024, 3024), (3046, 3058), (3077, 3084), (3086,
         3088), (3090, 3112), (3114, 3129), (3133, 3133), (3160, 3162), (3165, 3165),
         (3168, 3169), (3174, 3183), (3192, 3198), (3200, 3200), (3205, 3212), (3214,
         3216), (3218, 3240), (3242, 3251), (3253, 3257), (3261, 3261), (3293, 3294),
         (3296, 3297), (3302, 3311), (3313, 3314), (3332, 3340), (3342, 3344), (3346,
         3386)]),
      (3807,
        [(3389, 3389), (3406, 3406), (3412, 3414), (3416, 3425), (3430, 3448), (3450,
         3455), (3461, 3478), (3482, 3505), (3507, 3515), (3517, 3517), (3520, 3526),
         (3558, 3567), (3585, 3632), (3634, 3635), (3648, 3654), (3664, 3673), (3713,
         3714), (3716, 3716), (3718, 3722), (3724, 3747), (3749, 3749), (3751, 3760),
         (3762, 3763), (3773, 3773), (3776, 3780), (3782, 3782), (3792, 3801), (3804,
         3807)]),
      (4789,
        [(3840, 3840), (3872, 3891), (3904, 3911), (3913, 3948), (3976, 3980), (4096,
         4138), (4159, 4169), (4176, 4181), (4186, 4189), (4193, 4193), (4197, 4198),
         (4206, 4208), (4213, 4225), (4238, 4238), (4240, 4249), (4256, 4293), (4295,
         4295), (4301, 4301), (4304, 4346), (4348, 4680), (4682, 4685), (4688, 4694),
         (4696, 4696), (4698, 4701), (4704, 4744), (4746, 4749), (4752, 4784), (4786,
         4789)]),
      (6264,
        [(4792, 4798), (4800, 4800), (4802, 4805), (4808, 4822), (4824, 4880), (4882,
         4885), (4888, 4954), (4969, 4988), (4992, 5007), (5024, 5109), (5112, 5117),
         (5121, 5740), (5743, 5759), (5761, 5786), (5792, 5866), (5870, 5880), (5888,
         5905), (5919, 5937), (5952, 5969), (5984, 5996), (5998, 6000), (6016, 6067),
         (6103, 6103), (6108, 6108), (6112, 6121), (6128, 6137), (6160, 6169), (6176,
         6264)]),
      (7411,
        [(6272, 6276), (6279, 6312), (6314, 6314), (6320, 6389), (6400, 6430), (6470,
         6509), (6512, 6516), (6528, 6571), (6576, 6601), (6608, 6618), (6656, 6678),
         (6688, 6740), (6784, 6793), (6800, 6809), (6823, 6823), (6917, 6963), (6981,
         6988), (6992, 7001), (7043, 7072), (7086, 7141), (7168, 7203), (7232, 7241),
         (7245, 7293), (7296, 7304), (7312, 7354), (7357, 7359), (7401, 7404), (7406,
         7411)]),
      (8455,
        [(7413, 7414), (7418, 7418), (7424, 7615), (7680, 7957), (7960, 7965), (7968,
         8005), (8008, 8013), (8016, 8023), (8025, 8025), (8027, 8027), (8029, 8029),
         (8031, 8061), (8064, 8116), (8118, 8124), (8126, 8126), (8130, 8132), (8134,
         8140), (8144, 8147), (8150, 8155), (8160, 8172), (8178, 8180), (8182, 8188),
         (8304, 8305), (8308, 8313), (8319, 8329), (8336, 8348), (8450, 8450), (8455,
         8455)]),
      (11702,
        [(8458, 8467), (8469, 8469), (8473, 8477), (8484, 8484), (8486, 8486), (8488,
         8488), (8490, 8493), (8495, 8505), (8508, 8511), (8517, 8521), (8526, 8526),
         (8528, 8585), (9312, 9371), (9450, 9471), (10102, 10131), (11264, 11492), (11499,
         11502), (11506, 11507), (11517, 11517), (11520, 11557), (11559, 11559), (11565,
         11565), (11568, 11623), (11631, 11631), (11648, 11670), (11680, 11686), (11688,
         11694), (11696, 11702)]),
      (42508,
        [(11704, 11710), (11712, 11718), (11720, 11726), (11728, 11734), (11736, 11742),
         (11823, 11823), (12293, 12295), (12321, 12329), (12337, 12341), (12344, 12348),
         (12353, 12438), (12445, 12447), (12449, 12538), (12540, 12543), (12549, 12591),
         (12593, 12686), (12690, 12693), (12704, 12735), (12784, 12799), (12832, 12841),
         (12872, 12879), (12881, 12895), (12928, 12937), (12977, 12991), (13312, 19903),
         (19968, 42124), (42192, 42237), (42240, 42508)]),
      (43518,
        [(42512, 42539), (42560, 42606), (42623, 42653), (42656, 42735), (42775, 42783),
         (42786, 42888), (42891, 42954), (42960, 42961), (42963, 42963), (42965, 42969),
         (42994, 43009), (43011, 43013), (43015, 43018), (43020, 43042), (43056, 43061),
         (43072, 43123), (43138, 43187), (43216, 43225), (43250, 43255), (43259, 43259),
         (43261, 43262), (43264, 43301), (43312, 43334), (43360, 43388), (43396, 43442),
         (43471, 43481), (43488, 43492), (43494, 43518)]),
      (64109,
        [(43520, 43560), (43584, 43586), (43588, 43595), (43600, 43609), (43616, 43638),
         (43642, 43642), (43646, 43695), (43697, 43697), (43701, 43702), (43705, 43709),
         (43712, 43712), (43714, 43714), (43739, 43741), (43744, 43754), (43762, 43764),
         (43777, 43782), (43785, 43790), (43793, 43798), (43808, 43814), (43816, 43822),
         (43824, 43866), (43868, 43881), (43888, 44002), (44016, 44025), (44032, 55203),
         (55216, 55238), (55243, 55291), (63744, 64109)]),
      (65594,
        [(64112, 64217), (64256, 64262), (64275, 64279), (64285, 64285), (64287, 64296),
         (64298, 64310), (64312, 64316), (64318, 64318), (64320, 64321), (64323, 64324),
         (64326, 64433), (64467, 64829), (64848, 64911), (64914, 64967), (65008, 65019),
         (65136, 65140), (65142, 65276), (65296, 65305), (65313, 65338), (65345, 65370),
         (65382, 65470), (65474, 65479), (65482, 65487), (65490, 65495), (65498, 65500),
         (65536, 65547), (65549, 65574), (65576, 65594)]),
      (66977,
        [(65596, 65597), (65599, 65613), (65616, 65629), (65664, 65786), (65799, 65843),
         (65856, 65912), (65930, 65931), (66176, 66204), (66208, 66256), (66273, 66299),
         (66304, 66339), (66349, 66378), (66384, 66421), (66432, 66461), (66464, 66499),
         (66504, 66511), (66513, 66517), (66560, 66717), (66720, 66729), (66736, 66771),
         (66776, 66811), (66816, 66855), (66864, 66915), (66928, 66938), (66940, 66954),
         (66956, 66962), (66964, 66965), (66967, 66977)]),
      (68149,
        [(66979, 66993), (66995, 67001), (67003, 67004), (67072, 67382), (67392, 67413),
         (67424, 67431), (67456, 67461), (67463, 67504), (67506, 67514), (67584, 67589),
         (67592, 67592), (67594, 67637), (67639, 67640), (67644, 67644), (67647, 67669),
         (67672, 67702), (67705, 67742), (67751, 67759), (67808, 67826), (67828, 67829),
         (67835, 67867), (67872, 67897), (67968, 68023), (68028, 68047), (68050, 68096),
         (68112, 68115), (68117, 68119), (68121, 68149)]),
      (69746,
        [(68160, 68168), (68192, 68222), (68224, 68255), (68288, 68295), (68297, 68324),
         (68331, 68335), (68352, 68405), (68416, 68437), (68440, 68466), (68472, 68497),
         (68521, 68527), (68608, 68680), (68736, 68786), (68800, 68850), (68858, 68899),
         (68912, 68921), (69216, 69246), (69248, 69289), (69296, 69297), (69376, 69415),
         (69424, 69445), (69457, 69460), (69488, 69505), (69552, 69579), (69600, 69622),
         (69635, 69687), (69714, 69743), (69745, 69746)]),
      (70448,
        [(69749, 69749), (69763, 69807), (69840, 69864), (69872, 69881), (69891, 69926),
         (69942, 69951), (69956, 69956), (69959, 69959), (69968, 70002), (70006, 70006),
         (70019, 70066), (70081, 70084), (70096, 70106), (70108, 70108), (70113, 70132),
         (70144, 70161), (70163, 70187), (70272, 70278), (70280, 70280), (70282, 70285),
         (70287, 70301), (70303, 70312), (70320, 70366), (70384, 70393), (70405, 70412),
         (70415, 70416), (70419, 70440), (70442, 70448)]),
      (71945,
        [(70450, 70451), (70453, 70457), (70461, 70461), (70480, 70480), (70493, 70497),
         (70656, 70708), (70727, 70730), (70736, 70745), (70751, 70753), (70784, 70831),
         (70852, 70853), (70855, 70855), (70864, 70873), (71040, 71086), (71128, 71131),
         (71168, 71215), (71236, 71236), (71248, 71257), (71296, 71338), (71352, 71352),
         (71360, 71369), (71424, 71450), (71472, 71483), (71488, 71494), (71680, 71723),
         (71840, 71922), (71935, 71942), (71945, 71945)]),
      (73061,
        [(71948, 71955), (71957, 71958), (71960, 71983), (71999, 71999), (72001, 72001),
         (72016, 72025), (72096, 72103), (72106, 72144), (72161, 72161), (72163, 72163),
         (72192, 72192), (72203, 72242), (72250, 72250), (72272, 72272), (72284, 72329),
         (72349, 72349), (72368, 72440), (72704, 72712), (72714, 72750), (72768, 72768),
         (72784, 72812), (72818, 72847), (72960, 72966), (72968, 72969), (72971, 73008),
         (73030, 73030), (73040, 73049), (73056, 73061)]),
      (94032,
        [(73063, 73064), (73066, 73097), (73112, 73112), (73120, 73129), (73440, 73458),
         (73648, 73648), (73664, 73684), (73728, 74649), (74752, 74862), (74880, 75075),
         (77712, 77808), (77824, 78894), (82944, 83526), (92160, 92728), (92736, 92766),
         (92768, 92777), (92784, 92862), (92864, 92873), (92880, 92909), (92928, 92975),
         (92992, 92995), (93008, 93017), (93019, 93025), (93027, 93047), (93053, 93071),
         (93760, 93846), (93952, 94026), (94032, 94032)]),
      (120003,
        [(94099, 94111), (94176, 94177), (94179, 94179), (94208, 100343), (100352,
         101589), (101632, 101640), (110576, 110579), (110581, 110587), (110589, 110590),
         (110592, 110882), (110928, 110930), (110948, 110951), (110960, 111355), (113664,
         113770), (113776, 113788), (113792, 113800), (113808, 113817), (119520, 119539),
         (119648, 119672), (119808, 119892), (119894, 119964), (119966, 119967), (119970,
         119970), (119973, 119974), (119977, 119980), (119982, 119993), (119995, 119995),
         (119997, 120003)]),
      (123565,
        [(120005, 120069), (120071, 120074), (120077, 120084), (120086, 120092), (120094,
         120121), (120123, 120126), (120128, 120132), (120134, 120134), (120138, 120144),
         (120146, 120485), (120488, 120512), (120514, 120538), (120540, 120570), (120572,
         120596), (120598, 120628), (120630, 120654), (120656, 120686), (120688, 120712),
         (120714, 120744), (120746, 120770), (120772, 120779), (120782, 120831), (122624,
         122654), (123136, 123180), (123191, 123197), (123200, 123209), (123214, 123214),
         (123536, 123565)]),
      (126537,
        [(123584, 123627), (123632, 123641), (124896, 124902), (124904, 124907), (124909,
         124910), (124912, 124926), (124928, 125124), (125127, 125135), (125184, 125251),
         (125259, 125259), (125264, 125273), (126065, 126123), (126125, 126127), (126129,
         126132), (126209, 126253), (126255, 126269), (126464, 126467), (126469, 126495),
         (126497, 126498), (126500, 126500), (126503, 126503), (126505, 126514), (126516,
         126519), (126521, 126521), (126523, 126523), (126530, 126530), (126535, 126535),
         (126537, 126537)]),
      (191456,
        [(126539, 126539), (126541, 126543), (126545, 126546), (126548, 126548), (126551,
         126551), (126553, 126553), (126555, 126555), (126557, 126557), (126559, 126559),
         (126561, 126562), (126564, 126564), (126567, 126570), (126572, 126578), (126580,
         126583), (126585, 126588), (126590, 126590), (126592, 126601), (126603, 126619),
         (126625, 126627), (126629, 126633), (126635, 126651), (127232, 127244), (130032,
         130041), (131072, 173791), (173824, 177976), (177984, 178205), (178208, 183969),
         (183984, 191456)]),
      (201546,
        [(194560, 195101), (196608, 201546)])]"

definition isalnum :: "int \<Rightarrow> bool" where
  "isalnum c \<longleftrightarrow>
     (if c < 128 then (48 \<le> c \<and> c \<le> 57) \<or> (65 \<le> c \<and> c \<le> 90) \<or> (97 \<le> c \<and> c \<le> 122)
      else isdecimal c \<or> in_blocks alnum_blocks c)"

definition is_word :: "int \<Rightarrow> bool" where
  "is_word c \<longleftrightarrow> isalnum c \<or> c = codepoint CHR ''_''"

text \<open>
  Letter case. \<open>ascii_lower\<close> maps \<open>A\<close> to \<open>Z\<close> onto \<open>a\<close> to \<open>z\<close>. Under \<open>re.I\<close> a
  literal of a \<open>str\<close> pattern matches a character when the lower-case form of the
  character is the lower-case form of the literal or one of its case equivalents. For an
  ASCII literal, and the patterns of the source have no other, these characters are the
  literal in both cases and, beyond ASCII, U+0130 and U+0131 for \<open>i\<close>, U+017F for \<open>s\<close> and
  U+212A for \<open>k\<close>: a literal \<open>p\<close> matches \<open>c\<close> exactly when \<open>unicode_fold\<close> agrees on
  both.
\<close>

definition ascii_lower :: "int \<Rightarrow> int" where
  "ascii_lower c = (if 65 \<le> c \<and> c \<le> 90 then c + 32 else c)"

definition ascii_letter :: "int \<Rightarrow> bool" where
  "ascii_letter c \<longleftrightarrow> (65 \<le> c \<and> c \<le> 90) \<or> (97 \<le> c \<and> c \<le> 122)"

definition unicode_fold :: "int \<Rightarrow> int" where
  "unicode_fold c =
     (if c = 304 \<or> c = 305 then 105 else if c = 383 then 115 else if c = 8490 then 107
      else ascii_lower c)"

text \<open>\<open>s.strip()\<close>: whitespace is removed at both ends.\<close>

definition strip :: "ustring \<Rightarrow> ustring" where
  "strip s = rev (dropWhile isspace (rev (dropWhile isspace s)))"

text \<open>\<open>s.rstrip(chars)\<close>: every trailing character that occurs in \<open>chars\<close> is removed.\<close>

definition rstrip :: "ustring \<Rightarrow> ustring \<Rightarrow> ustring" where
  "rstrip chars s = rev (dropWhile (\<lambda>c. c \<in> set chars) (rev s))"


section \<open>The fragment of \<open>re\<close> that the guard uses\<close>

text \<open>
  The four patterns of \<open>SafeSQLTool._run\<close> are built from literal characters, \<open>\s*\<close>,
  \<open>\s+\<close>, \<open>\d+\<close>, \<open>\b\<close>, \<open>^\<close>, concatenation and alternation, and all four are compiled
  with \<open>re.I\<close> and without \<open>re.ASCII\<close>. \<open>ends r s i\<close> lists the offsets at which a match
  of \<open>r\<close> that starts at offset \<open>i\<close> of \<open>s\<close> can end, in the order in which the
  backtracking matcher tries them (longest repetition first, left alternative first).
\<close>

datatype category = Space | Digit

datatype re =
    Empty
  | Lit int
  | Many0 category
  | Many1 category
  | Boundary
  | Start
  | Seq re re
  | Alt re re

primrec in_category :: "category \<Rightarrow> int \<Rightarrow> bool" where
  "in_category Space c = isspace c"
| "in_category Digit c = isdecimal c"

definition run_length :: "category \<Rightarrow> ustring \<Rightarrow> nat \<Rightarrow> nat" where
  "run_length k s i = length (takeWhile (in_category k) (drop i s))"

definition word_before :: "ustring \<Rightarrow> nat \<Rightarrow> bool" where
  "word_before s i \<longleftrightarrow> 0 < i \<and> i \<le> length s \<and> is_word (s ! (i - 1))"

definition word_after :: "ustring \<Rightarrow> nat \<Rightarrow> bool" where
  "word_after s i \<longleftrightarrow> i < length s \<and> is_word (s ! i)"

definition at_boundary :: "ustring \<Rightarrow> nat \<Rightarrow> bool" where
  "at_boundary s i \<longleftrightarrow> word_before s i \<noteq> word_after s i"

primrec ends :: "re \<Rightarrow> ustring \<Rightarrow> nat \<Rightarrow> nat list" where
  "ends Empty s i = [i]"
| "ends (Lit p) s i =
     (if i < length s \<and> unicode_fold (s ! i) = unicode_fold p then [Suc i] else [])"
| "ends (Many0 k) s i = map (\<lambda>n. i + n) (rev [0..<Suc (run_length k s i)])"
| "ends (Many1 k) s i = map (\<lambda>n. i + n) (rev [1..<Suc (run_length k s i)])"
| "ends Boundary s i = (if at_boundary s i then [i] else [])"
| "ends Start s i = (if i = 0 then [i] else [])"
| "ends (Seq r1 r2) s i = concat (map (ends r2 s) (ends r1 s i))"
| "ends (Alt r1 r2) s i = ends r1 s i @ ends r2 s i"

text \<open>\<open>re.match\<close> tries offset 0 only; \<open>re.search\<close> tries every offset from the left.\<close>

definition re_match :: "re \<Rightarrow> ustring \<Rightarrow> bool" where
  "re_match r s \<longleftrightarrow> ends r s 0 \<noteq> []"

definition re_search :: "re \<Rightarrow> ustring \<Rightarrow> bool" where
  "re_search r s \<longleftrightarrow> list_ex (\<lambda>i. ends r s i \<noteq> []) [0..<Suc (length s)]"

primrec lits :: "ustring \<Rightarrow> re" where
  "lits [] = Empty"
| "lits (c # cs) = Seq (Lit c) (lits cs)"

primrec alt_lits :: "ustring \<Rightarrow> ustring list \<Rightarrow> re" where
  "alt_lits w [] = lits w"
| "alt_lits w (v # vs) = Alt (lits w) (alt_lits v vs)"

text \<open>\<open>\b(INSERT|UPDATE|DELETE|DROP|TRUNCATE|ALTER|CREATE|REPLACE)\b\<close>\<close>

definition write_re :: re where
  "write_re =
     Seq Boundary
       (Seq (alt_lits (str ''INSERT'')
               [str ''UPDATE'', str ''DELETE'', str ''DROP'', str ''TRUNCATE'', str ''ALTER'',
                str ''CREATE'', str ''REPLACE''])
            Boundary)"

text \<open>\<open>(?is)^\s*select\b\<close>\<close>

definition select_re :: re where
  "select_re = Seq Start (Seq (Many0 Space) (Seq (lits (str ''select'')) Boundary))"

text \<open>\<open>\blimit\s+\d+\b\<close>\<close>

definition limit_re :: re where
  "limit_re =
     Seq Boundary
       (Seq (lits (str ''limit'')) (Seq (Many1 Space) (Seq (Many1 Digit) Boundary)))"

text \<open>\<open>\bcount\(|\bgroup\s+by\b|\bsum\(|\bavg\(|\bmax\(|\bmin\(\<close>\<close>

definition aggregate_re :: re where
  "aggregate_re =
     Alt (Seq Boundary (lits (str ''count('')))
    (Alt (Seq Boundary
            (Seq (lits (str ''group'')) (Seq (Many1 Space) (Seq (lits (str ''by'')) Boundary))))
    (Alt (Seq Boundary (lits (str ''sum('')))
    (Alt (Seq Boundary (lits (str ''avg('')))
    (Alt (Seq Boundary (lits (str ''max('')))
         (Seq Boundary (lits (str ''min('')))))))"


section \<open>The store\<close>

text \<open>
  The SQLAlchemy engine is a global of the module. What it keeps is the database, a
  state of an arbitrary type \<open>'db\<close>, and whatever else the library holds from one call to
  the next (its random generator, its clock), a state of type \<open>'s\<close>. A driver answers a
  statement with the keys and rows of the result, or with the exception it raises, and
  with both states afterwards. \<open>executed\<close> records the statements handed to the driver,
  oldest first.

  An exception is either an instance of \<open>Exception\<close>, carrying its \<open>str(e)\<close>, or one of
  the exceptions that derive from \<open>BaseException\<close> only (\<open>KeyboardInterrupt\<close>,
  \<open>SystemExit\<close>), which \<open>except Exception\<close> does not catch.
\<close>

datatype py_exc = Exception ustring | Base_Exception ustring

type_synonym ('db, 's, 'v) driver =
  "ustring \<Rightarrow> 'db \<Rightarrow> 's \<Rightarrow> (py_exc + ustring list \<times> 'v list list) \<times> 'db \<times> 's"

record ('db, 's) engine =
  store :: 'db
  session :: 's
  executed :: "ustring list"

definition exec_driver_sql ::
  "('db, 's, 'v) driver \<Rightarrow> ustring \<Rightarrow> ('db, 's) engine \<Rightarrow>
     (py_exc + ustring list \<times> 'v list list) \<times> ('db, 's) engine"
where
  "exec_driver_sql drv q e =
     (case drv q (store e) (session e) of
        (out, db', s') \<Rightarrow> (out, \<lparr>store = db', session = s', executed = executed e @ [q]\<rparr>))"


section \<open>\<open>SafeSQLTool._run\<close>\<close>

text \<open>The value \<open>_run\<close> returns: a \<open>str\<close>, or the \<open>dict\<close> with \<open>columns\<close> and \<open>rows\<close>.\<close>

datatype 'v ret = Str ustring | Dict (columns: "ustring list") (rows: "'v list list")

text \<open>\<open>s = sql.strip().rstrip(";")\<close>\<close>

definition trim :: "ustring \<Rightarrow> ustring" where
  "trim sql = rstrip (str '';'') (strip sql)"

text \<open>The statement after the auto-limit step.\<close>

definition auto_limit :: "ustring \<Rightarrow> ustring" where
  "auto_limit s =
     (if \<not> re_search limit_re s \<and> \<not> re_search aggregate_re s then s @ str '' LIMIT 200''
      else s)"

text \<open>
  \<open>Inl\<close> is an exception that leaves \<open>_run\<close>; \<open>Inr\<close> is the value it returns. The second
  component is the engine afterwards.
\<close>

definition run ::
  "('db, 's, 'v) driver \<Rightarrow> ustring \<Rightarrow> ('db, 's) engine \<Rightarrow> (py_exc + 'v ret) \<times> ('db, 's) engine"
where
  "run drv sql e =
     (let s = trim sql in
      if re_search write_re s then (Inr (Str (str ''ERROR: write operations are not allowed.'')), e)
      else if codepoint CHR '';'' \<in> set s
        then (Inr (Str (str ''ERROR: multiple statements are not allowed.'')), e)
      else if \<not> re_match select_re s
        then (Inr (Str (str ''ERROR: only SELECT statements are allowed.'')), e)
      else
        (case exec_driver_sql drv (auto_limit s) e of
           (Inr (keys, rws), e') \<Rightarrow>
             (Inr (Dict (if keys \<noteq> [] then keys else []) (map (\<lambda>r. r) rws)), e')
         | (Inl (Exception m), e') \<Rightarrow> (Inr (Str (str ''ERROR: '' @ m)), e')
         | (Inl (Base_Exception m), e') \<Rightarrow> (Inl (Base_Exception m), e')))"

text \<open>The reasons of the specification are the three messages of the source.\<close>

definition WriteOperationDenied :: "'v ret" where
  "WriteOperationDenied = Str (str ''ERROR: write operations are not allowed.'')"

definition MultipleStatementsDenied :: "'v ret" where
  "MultipleStatementsDenied = Str (str ''ERROR: multiple statements are not allowed.'')"

definition NonSelectDenied :: "'v ret" where
  "NonSelectDenied = Str (str ''ERROR: only SELECT statements are allowed.'')"

definition ExecutionError :: "ustring \<Rightarrow> 'v ret" where
  "ExecutionError m = Str (str ''ERROR: '' @ m)"


section \<open>The words of the specification, read on a text\<close>

text \<open>
  The guard is textual, so every notion of the specification is a property of a string.
  Letter case is ignored through a folding \<open>f\<close> of the code points: \<open>ascii_lower\<close> is the
  reading of the specification (a keyword in upper, lower or mixed case), \<open>unicode_fold\<close>
  is the reading of the guard. \<open>occurs_at f w s i\<close>: the text \<open>w\<close> stands at offset \<open>i\<close> of
  \<open>s\<close>, up to \<open>f\<close>. A whole word has no word character next to it on either side.
\<close>

definition occurs_at :: "(int \<Rightarrow> int) \<Rightarrow> ustring \<Rightarrow> ustring \<Rightarrow> nat \<Rightarrow> bool" where
  "occurs_at f w s i \<longleftrightarrow>
     i + length w \<le> length s \<and> map f (take (length w) (drop i s)) = map f w"

definition starts_word :: "ustring \<Rightarrow> nat \<Rightarrow> bool" where
  "starts_word s i \<longleftrightarrow> i = 0 \<or> \<not> is_word (s ! (i - 1))"

definition ends_word :: "ustring \<Rightarrow> nat \<Rightarrow> bool" where
  "ends_word s j \<longleftrightarrow> length s \<le> j \<or> \<not> is_word (s ! j)"

definition whole_word_at :: "(int \<Rightarrow> int) \<Rightarrow> ustring \<Rightarrow> ustring \<Rightarrow> nat \<Rightarrow> bool" where
  "whole_word_at f w s i \<longleftrightarrow>
     occurs_at f w s i \<and> starts_word s i \<and> ends_word s (i + length w)"

definition contains_word :: "(int \<Rightarrow> int) \<Rightarrow> ustring \<Rightarrow> ustring \<Rightarrow> bool" where
  "contains_word f w s \<longleftrightarrow> (\<exists>i\<in>{..length s}. whole_word_at f w s i)"

definition write_keywords :: "ustring list" where
  "write_keywords =
     [str ''INSERT'', str ''UPDATE'', str ''DELETE'', str ''DROP'', str ''TRUNCATE'',
      str ''ALTER'', str ''CREATE'', str ''REPLACE'']"

definition contains_write_keyword :: "(int \<Rightarrow> int) \<Rightarrow> ustring \<Rightarrow> bool" where
  "contains_write_keyword f s \<longleftrightarrow> (\<exists>w\<in>set write_keywords. contains_word f w s)"

text \<open>The text begins, after optional whitespace, with the keyword \<open>SELECT\<close>.\<close>

definition begins_with_select :: "(int \<Rightarrow> int) \<Rightarrow> ustring \<Rightarrow> bool" where
  "begins_with_select f s \<longleftrightarrow>
     (let n = length (takeWhile isspace s)
      in occurs_at f (str ''SELECT'') s n \<and> ends_word s (n + 6))"

text \<open>
  \<open>run_between P s i j\<close>: the characters of \<open>s\<close> from offset \<open>i\<close> up to, not including,
  offset \<open>j\<close> are at least one and all satisfy \<open>P\<close>.
\<close>

definition run_between :: "(int \<Rightarrow> bool) \<Rightarrow> ustring \<Rightarrow> nat \<Rightarrow> nat \<Rightarrow> bool" where
  "run_between P s i j \<longleftrightarrow> i < j \<and> j \<le> length s \<and> (\<forall>x\<in>{i..<j}. P (s ! x))"

text \<open>
  An explicit row-limiting clause as the guard recognises it: the word \<open>LIMIT\<close>,
  whitespace, and decimal digits that end at a word end.
\<close>

definition has_limit_clause :: "(int \<Rightarrow> int) \<Rightarrow> ustring \<Rightarrow> bool" where
  "has_limit_clause f s \<longleftrightarrow>
     (\<exists>i\<in>{..length s}. \<exists>j\<in>{..length s}. \<exists>k\<in>{..length s}.
        starts_word s i \<and> occurs_at f (str ''LIMIT'') s i \<and> run_between isspace s (i + 5) j \<and>
        run_between isdecimal s j k \<and> ends_word s k)"

text \<open>
  The aggregate constructs as the guard recognises them: the name of an aggregate
  function that starts a word and is directly followed by an opening parenthesis, or
  the words \<open>GROUP\<close> and \<open>BY\<close> with whitespace between them.
\<close>

definition aggregate_calls :: "ustring list" where
  "aggregate_calls = [str ''COUNT('', str ''SUM('', str ''AVG('', str ''MAX('', str ''MIN('']"

definition has_aggregate_call :: "(int \<Rightarrow> int) \<Rightarrow> ustring \<Rightarrow> bool" where
  "has_aggregate_call f s \<longleftrightarrow>
     (\<exists>g\<in>set aggregate_calls. \<exists>i\<in>{..length s}. starts_word s i \<and> occurs_at f g s i)"

definition has_group_by :: "(int \<Rightarrow> int) \<Rightarrow> ustring \<Rightarrow> bool" where
  "has_group_by f s \<longleftrightarrow>
     (\<exists>i\<in>{..length s}. \<exists>j\<in>{..length s}.
        starts_word s i \<and> occurs_at f (str ''GROUP'') s i \<and> run_between isspace s (i + 5) j \<and>
        occurs_at f (str ''BY'') s j \<and> ends_word s (j + 2))"

text \<open>
  The aggregate constructs as the specification names them: one of the five function
  names as a whole word, or a grouping clause.
\<close>

definition aggregate_names :: "ustring list" where
  "aggregate_names = [str ''COUNT'', str ''SUM'', str ''AVG'', str ''MIN'', str ''MAX'']"

definition mentions_aggregate :: "(int \<Rightarrow> int) \<Rightarrow> ustring \<Rightarrow> bool" where
  "mentions_aggregate f s \<longleftrightarrow>
     (\<exists>g\<in>set aggregate_names. contains_word f g s) \<or> has_group_by f s"

text \<open>The three validation checks of the guard all pass on a trimmed text.\<close>

definition passes_validation :: "ustring \<Rightarrow> bool" where
  "passes_validation s \<longleftrightarrow>
     \<not> contains_write_keyword unicode_fold s \<and> codepoint CHR '';'' \<notin> set s \<and>
     begins_with_select unicode_fold s"

text \<open>
  A statement terminator after the first character that is not whitespace and before
  the last character of the input.
\<close>

definition semicolon_inside :: "ustring \<Rightarrow> bool" where
  "semicolon_inside sql \<longleftrightarrow>
     (\<exists>i\<in>{..<length sql}. length (takeWhile isspace sql) < i \<and> Suc i < length sql \<and>
        sql ! i = codepoint CHR '';'')"


section \<open>Characters\<close>

lemma fold_ascii: "ascii_lower c = ascii_lower p \<Longrightarrow> unicode_fold c = unicode_fold p"
  by (auto simp: unicode_fold_def ascii_lower_def split: if_splits)

lemma special_letters_are_words: "is_word 304 \<and> is_word 305 \<and> is_word 383 \<and> is_word 8490"
  by code_simp

lemma ascii_letter_is_word: "ascii_letter c \<Longrightarrow> is_word c"
  by (auto simp: ascii_letter_def is_word_def isalnum_def)

lemma fold_letter_is_word:
  assumes "unicode_fold c = unicode_fold p" "ascii_letter p"
  shows "is_word c"
proof -
  have "97 \<le> unicode_fold p \<and> unicode_fold p \<le> 122"
    using assms(2) by (auto simp: unicode_fold_def ascii_lower_def ascii_letter_def)
  then have "97 \<le> unicode_fold c \<and> unicode_fold c \<le> 122" using assms(1) by simp
  then have "ascii_letter c \<or> c = 304 \<or> c = 305 \<or> c = 383 \<or> c = 8490"
    by (auto simp: unicode_fold_def ascii_lower_def ascii_letter_def split: if_splits)
  then show ?thesis using ascii_letter_is_word special_letters_are_words by blast
qed

lemma whitespace_not_words: "list_all (\<lambda>c. \<not> is_word c) whitespace"
  by code_simp

lemma isspace_not_word: "isspace c \<Longrightarrow> \<not> is_word c"
  using whitespace_not_words by (simp add: isspace_def list_all_iff)

lemma isdecimal_is_word: "isdecimal c \<Longrightarrow> is_word c"
  by (auto simp: is_word_def isalnum_def isdecimal_def split: if_splits)

subsection \<open>Literal text at an offset\<close>

lemma le_length_takeWhile:
  "n \<le> length (takeWhile P xs) \<longleftrightarrow> n \<le> length xs \<and> (\<forall>x<n. P (xs ! x))"
proof (induction xs arbitrary: n)
  case Nil
  then show ?case by auto
next
  case (Cons a xs)
  show ?case
  proof (cases n)
    case 0
    then show ?thesis by simp
  next
    case (Suc m)
    then show ?thesis using Cons.IH[of m]
      by (auto simp: less_Suc_eq_0_disj)
  qed
qed

lemma occurs_at_Nil: "occurs_at unicode_fold [] s i \<longleftrightarrow> i \<le> length s"
  by (simp add: occurs_at_def)

lemma occurs_at_Cons:
  "occurs_at unicode_fold (c # w) s i \<longleftrightarrow> i < length s \<and> unicode_fold (s ! i) = unicode_fold c \<and> occurs_at unicode_fold w s (Suc i)"
proof (cases "i < length s")
  case True
  then have "drop i s = s ! i # drop (Suc i) s" by (simp add: Cons_nth_drop_Suc)
  then show ?thesis using True by (auto simp: occurs_at_def)
next
  case False
  then show ?thesis by (simp add: occurs_at_def)
qed

lemma occurs_at_bound: "occurs_at unicode_fold w s i \<Longrightarrow> i + length w \<le> length s"
  by (simp add: occurs_at_def)

lemma occurs_at_nth:
  "occurs_at unicode_fold w s i \<Longrightarrow> n < length w \<Longrightarrow> unicode_fold (s ! (i + n)) = unicode_fold (w ! n)"
proof (induction w arbitrary: i n)
  case Nil
  then show ?case by simp
next
  case (Cons c w)
  show ?case
  proof (cases n)
    case 0
    then show ?thesis using Cons.prems by (simp add: occurs_at_Cons)
  next
    case (Suc m)
    then show ?thesis using Cons.prems Cons.IH[of "Suc i" m] by (simp add: occurs_at_Cons)
  qed
qed

lemma occurs_at_ci:
  assumes "map unicode_fold w = map unicode_fold v"
  shows "occurs_at unicode_fold w s i = occurs_at unicode_fold v s i"
proof -
  have "length w = length v" using assms by (rule map_eq_imp_length_eq)
  then show ?thesis using assms by (simp add: occurs_at_def)
qed

lemma ends_lits:
  "i \<le> length s \<Longrightarrow> ends (lits w) s i = (if occurs_at unicode_fold w s i then [i + length w] else [])"
proof (induction w arbitrary: i)
  case Nil
  then show ?case by (simp add: occurs_at_Nil)
next
  case (Cons c w)
  show ?case
  proof (cases "i < length s \<and> unicode_fold (s ! i) = unicode_fold c")
    case True
    then have "ends (lits (c # w)) s i = ends (lits w) s (Suc i)" by simp
    also have "\<dots> = (if occurs_at unicode_fold w s (Suc i) then [Suc i + length w] else [])"
      using True by (intro Cons.IH) simp
    finally show ?thesis using True by (simp add: occurs_at_Cons)
  next
    case False
    then show ?thesis by (auto simp: occurs_at_Cons)
  qed
qed

lemma set_ends_alt_lits:
  "i \<le> length s \<Longrightarrow>
   set (ends (alt_lits w vs) s i) = {i + length v |v. v \<in> set (w # vs) \<and> occurs_at unicode_fold v s i}"
proof (induction vs arbitrary: w)
  case Nil
  then show ?case by (auto simp: ends_lits)
next
  case (Cons v vs)
  then show ?case by (auto simp: ends_lits)
qed

lemma set_ends_Many1:
  "set (ends (Many1 k) s i) = {j. run_between (in_category k) s i j}"
proof -
  have "i < j \<and> j \<le> i + run_length k s i \<longleftrightarrow> run_between (in_category k) s i j" for j
  proof (cases "i < j")
    case False
    then show ?thesis by (simp add: run_between_def)
  next
    case True
    have "j - i \<le> run_length k s i \<longleftrightarrow>
          j - i \<le> length (drop i s) \<and> (\<forall>x<j - i. in_category k (drop i s ! x))"
      unfolding run_length_def by (rule le_length_takeWhile)
    also have "\<dots> \<longleftrightarrow> j \<le> length s \<and> (\<forall>x\<in>{i..<j}. in_category k (s ! x))"
    proof (cases "j \<le> length s")
      case False
      then show ?thesis using True by auto
    next
      case le: True
      have "(\<forall>x<j - i. in_category k (drop i s ! x)) \<longleftrightarrow> (\<forall>x\<in>{i..<j}. in_category k (s ! x))"
      proof
        assume a: "\<forall>x<j - i. in_category k (drop i s ! x)"
        show "\<forall>x\<in>{i..<j}. in_category k (s ! x)"
        proof
          fix x assume "x \<in> {i..<j}"
          then have "x - i < j - i" "i + (x - i) = x" by auto
          then show "in_category k (s ! x)" using a le True by (metis nth_drop less_imp_le_nat order_trans)
        qed
      next
        assume a: "\<forall>x\<in>{i..<j}. in_category k (s ! x)"
        show "\<forall>x<j - i. in_category k (drop i s ! x)"
        proof (intro allI impI)
          fix x assume "x < j - i"
          then have "i + x \<in> {i..<j}" by auto
          then show "in_category k (drop i s ! x)" using a le True by (simp add: nth_drop)
        qed
      qed
      then show ?thesis using le True by auto
    qed
    finally show ?thesis using True by (auto simp: run_between_def)
  qed
  moreover have "set (ends (Many1 k) s i) = {j. i < j \<and> j \<le> i + run_length k s i}"
  proof -
    have "set (ends (Many1 k) s i) = (\<lambda>n. i + n) ` {1..<Suc (run_length k s i)}"
      by (simp only: ends.simps set_map set_rev set_upt)
    also have "\<dots> = {j. i < j \<and> j \<le> i + run_length k s i}"
    proof (intro set_eqI iffI)
      fix j assume "j \<in> (\<lambda>n. i + n) ` {1..<Suc (run_length k s i)}"
      then show "j \<in> {j. i < j \<and> j \<le> i + run_length k s i}" by auto
    next
      fix j assume "j \<in> {j. i < j \<and> j \<le> i + run_length k s i}"
      then have "j = i + (j - i)" "j - i \<in> {1..<Suc (run_length k s i)}" by auto
      then show "j \<in> (\<lambda>n. i + n) ` {1..<Suc (run_length k s i)}" by (rule image_eqI)
    qed
    finally show ?thesis .
  qed
  ultimately show ?thesis by simp
qed


section \<open>What the matcher finds\<close>

subsection \<open>Word boundaries\<close>

lemma occurs_at_is_word:
  "occurs_at unicode_fold w s i \<Longrightarrow> n < length w \<Longrightarrow> ascii_letter (w ! n) \<Longrightarrow>
   is_word (s ! (i + n))"
  using occurs_at_nth[of w s i n] by (rule fold_letter_is_word)

lemma at_boundary_start:
  "i < length s \<Longrightarrow> is_word (s ! i) \<Longrightarrow> at_boundary s i = starts_word s i"
  by (auto simp: at_boundary_def word_before_def word_after_def starts_word_def)

lemma at_boundary_end:
  "0 < j \<Longrightarrow> j \<le> length s \<Longrightarrow> is_word (s ! (j - 1)) \<Longrightarrow> at_boundary s j = ends_word s j"
  by (auto simp: at_boundary_def word_before_def word_after_def ends_word_def)

lemma occurs_at_boundary_start:
  assumes "occurs_at unicode_fold w s i" "w \<noteq> []" "ascii_letter (hd w)"
  shows "at_boundary s i = starts_word s i"
proof -
  have "0 < length w" using assms(2) by simp
  then have "is_word (s ! (i + 0))"
    using assms by (intro occurs_at_is_word[of w]) (simp_all add: hd_conv_nth)
  moreover have "i < length s" using occurs_at_bound[OF assms(1)] assms(2) by (cases w) auto
  ultimately show ?thesis by (simp add: at_boundary_start)
qed

lemma occurs_at_boundary_end:
  assumes "occurs_at unicode_fold w s i" "w \<noteq> []" "ascii_letter (last w)"
  shows "at_boundary s (i + length w) = ends_word s (i + length w)"
proof -
  have l: "length w - 1 < length w" using assms(2) by simp
  have "is_word (s ! (i + (length w - 1)))"
    using assms l by (intro occurs_at_is_word[of w]) (simp_all add: last_conv_nth)
  moreover have "i + (length w - 1) = i + length w - 1" using l by simp
  ultimately have "is_word (s ! (i + length w - 1))" by simp
  moreover have "0 < i + length w" using assms(2) by simp
  ultimately show ?thesis using occurs_at_bound[OF assms(1)] by (simp add: at_boundary_end)
qed

subsection \<open>The write-keyword pattern\<close>

lemma re_search_iff: "re_search r s \<longleftrightarrow> (\<exists>i\<in>{..length s}. ends r s i \<noteq> [])"
proof -
  have "set [0..<Suc (length s)] = {..length s}" by (simp only: atMost_upto)
  then show ?thesis by (simp only: re_search_def list_ex_iff)
qed

lemma ends_Seq_nonempty:
  "ends (Seq a b) s i \<noteq> [] \<longleftrightarrow> (\<exists>j\<in>set (ends a s i). ends b s j \<noteq> [])"
  by auto

lemma ends_Alt_nonempty:
  "ends (Alt a b) s i \<noteq> [] \<longleftrightarrow> ends a s i \<noteq> [] \<or> ends b s i \<noteq> []"
  by simp

lemma ends_Boundary_nonempty: "ends Boundary s i \<noteq> [] \<longleftrightarrow> at_boundary s i"
  by simp

lemma ends_lits_nonempty: "i \<le> length s \<Longrightarrow> ends (lits w) s i \<noteq> [] \<longleftrightarrow> occurs_at unicode_fold w s i"
  by (simp add: ends_lits)

lemma set_ends_lits:
  "i \<le> length s \<Longrightarrow> set (ends (lits w) s i) = (if occurs_at unicode_fold w s i then {i + length w} else {})"
  by (simp add: ends_lits)

lemma ends_between_boundaries:
  "ends (Seq Boundary (Seq r Boundary)) s i \<noteq> [] \<longleftrightarrow>
     at_boundary s i \<and> (\<exists>j\<in>set (ends r s i). at_boundary s j)"
  by auto

lemma whole_word_boundaries:
  assumes "w \<noteq> []" "ascii_letter (hd w)" "ascii_letter (last w)"
  shows "at_boundary s i \<and> occurs_at unicode_fold w s i \<and> at_boundary s (i + length w) \<longleftrightarrow> whole_word_at unicode_fold w s i"
  using occurs_at_boundary_start[OF _ assms(1,2), of s i]
        occurs_at_boundary_end[OF _ assms(1,3), of s i]
  by (auto simp: whole_word_at_def)

lemma write_keywords_words:
  "w \<in> set write_keywords \<Longrightarrow> w \<noteq> [] \<and> ascii_letter (hd w) \<and> ascii_letter (last w)"
  by (auto simp: write_keywords_def str_def codepoint_def ascii_letter_def)

lemma ends_write_re:
  assumes "i \<le> length s"
  shows "ends write_re s i \<noteq> [] \<longleftrightarrow> (\<exists>w\<in>set write_keywords. whole_word_at unicode_fold w s i)"
proof -
  have alts: "set (ends (alt_lits (str ''INSERT'')
      [(str ''UPDATE''), (str ''DELETE''), (str ''DROP''), (str ''TRUNCATE''), (str ''ALTER''), (str ''CREATE''), (str ''REPLACE'')]) s i) =
      {i + length v |v. v \<in> set write_keywords \<and> occurs_at unicode_fold v s i}"
    unfolding write_keywords_def using assms by (rule set_ends_alt_lits)
  have "ends write_re s i \<noteq> [] \<longleftrightarrow>
        at_boundary s i \<and> (\<exists>j\<in>{i + length v |v. v \<in> set write_keywords \<and> occurs_at unicode_fold v s i}.
           at_boundary s j)"
    unfolding write_re_def ends_between_boundaries alts ..
  also have "\<dots> \<longleftrightarrow>
        (\<exists>v\<in>set write_keywords. at_boundary s i \<and> occurs_at unicode_fold v s i \<and> at_boundary s (i + length v))"
    by blast
  also have "\<dots> \<longleftrightarrow> (\<exists>w\<in>set write_keywords. whole_word_at unicode_fold w s i)"
    using whole_word_boundaries write_keywords_words by (intro bex_cong refl) blast
  finally show ?thesis .
qed

lemma re_search_write_re: "re_search write_re s \<longleftrightarrow> contains_write_keyword unicode_fold s"
proof -
  have "re_search write_re s \<longleftrightarrow>
        (\<exists>i\<in>{..length s}. \<exists>w\<in>set write_keywords. whole_word_at unicode_fold w s i)"
    unfolding re_search_iff using ends_write_re by (intro bex_cong refl) simp
  then show ?thesis unfolding contains_write_keyword_def contains_word_def by blast
qed

subsection \<open>The SELECT pattern\<close>

lemma ends_Boundary_then:
  "ends (Seq Boundary r) s i \<noteq> [] \<longleftrightarrow> at_boundary s i \<and> ends r s i \<noteq> []"
  by simp

lemma ends_Start_then: "ends (Seq Start r) s i \<noteq> [] \<longleftrightarrow> i = 0 \<and> ends r s i \<noteq> []"
  by auto

lemma ends_lits_then:
  "i \<le> length s \<Longrightarrow>
   ends (Seq (lits w) r) s i \<noteq> [] \<longleftrightarrow> occurs_at unicode_fold w s i \<and> ends r s (i + length w) \<noteq> []"
  unfolding ends_Seq_nonempty by (simp only: set_ends_lits) simp

lemma ends_Many1_then:
  "ends (Seq (Many1 k) r) s i \<noteq> [] \<longleftrightarrow>
   (\<exists>j. run_between (in_category k) s i j \<and> ends r s j \<noteq> [])"
  unfolding ends_Seq_nonempty set_ends_Many1 by blast

lemma set_ends_Many0:
  "set (ends (Many0 k) s i) = insert i {j. run_between (in_category k) s i j}"
proof -
  have "set (ends (Many0 k) s i) = (\<lambda>n. i + n) ` {0..<Suc (run_length k s i)}"
    by (simp only: ends.simps set_map set_rev set_upt)
  also have "{0..<Suc (run_length k s i)} = insert 0 {1..<Suc (run_length k s i)}" by auto
  also have "(\<lambda>n. i + n) ` \<dots> = insert i ((\<lambda>n. i + n) ` {1..<Suc (run_length k s i)})" by simp
  also have "(\<lambda>n. i + n) ` {1..<Suc (run_length k s i)} = set (ends (Many1 k) s i)"
    by (simp only: ends.simps set_map set_rev set_upt)
  finally show ?thesis by (simp only: set_ends_Many1)
qed

lemma ends_Many0_then:
  "ends (Seq (Many0 k) r) s i \<noteq> [] \<longleftrightarrow>
   ends r s i \<noteq> [] \<or> (\<exists>j. run_between (in_category k) s i j \<and> ends r s j \<noteq> [])"
  unfolding ends_Seq_nonempty set_ends_Many0 by blast

lemma run_between_le: "run_between P s i j \<Longrightarrow> j \<le> length s"
  by (simp add: run_between_def)

lemma run_between_last: "run_between P s i j \<Longrightarrow> P (s ! (j - 1))"
  by (auto simp: run_between_def)

lemma occurs_at_not_space:
  assumes "occurs_at unicode_fold w s j" "w \<noteq> []" "ascii_letter (hd w)"
  shows "\<not> isspace (s ! j)"
proof -
  have "is_word (s ! (j + 0))"
    using assms by (intro occurs_at_is_word[of w]) (simp_all add: hd_conv_nth)
  then show ?thesis using isspace_not_word by auto
qed

lemma select_letters: "(str ''select'') \<noteq> [] \<and> ascii_letter (hd (str ''select'')) \<and> ascii_letter (last (str ''select''))"
  by (simp_all add: str_def codepoint_def ascii_letter_def)

lemma ci_select: "map unicode_fold (str ''select'') = map unicode_fold (str ''SELECT'')"
  by code_simp

lemma re_match_select_re: "re_match select_re s \<longleftrightarrow> begins_with_select unicode_fold s"
proof -
  let ?n = "length (takeWhile isspace s)"
  let ?tail = "\<lambda>j. occurs_at unicode_fold (str ''select'') s j \<and> ends_word s (j + length (str ''select''))"
  have n_le: "?n \<le> length s" by (rule length_takeWhile_le)
  have tail: "ends (Seq (lits (str ''select'')) Boundary) s j \<noteq> [] \<longleftrightarrow> ?tail j" if "j \<le> length s" for j
    unfolding ends_lits_then[OF that] ends_Boundary_nonempty
    using occurs_at_boundary_end[of "(str ''select'')" s j] select_letters by blast
  have "re_match select_re s \<longleftrightarrow>
     ?tail 0 \<or> (\<exists>j. run_between isspace s 0 j \<and> ?tail j)"
    unfolding re_match_def select_re_def ends_Start_then ends_Many0_then in_category.simps
    using tail run_between_le[of isspace s 0] by blast
  also have "\<dots> \<longleftrightarrow> ?tail ?n"
  proof
    assume a: "?tail 0 \<or> (\<exists>j. run_between isspace s 0 j \<and> ?tail j)"
    show "?tail ?n"
    proof (cases "?tail 0")
      case True
      then have "\<not> isspace (s ! 0)" using select_letters by (intro occurs_at_not_space) auto
      moreover have "s \<noteq> []" using True by (auto simp: occurs_at_def str_def)
      ultimately have "?n = 0" by (cases s) auto
      then show ?thesis using True by simp
    next
      case False
      then obtain j where j: "run_between isspace s 0 j" "?tail j" using a by blast
      have "j \<le> ?n" using j(1) by (auto simp: run_between_def le_length_takeWhile)
      moreover have "\<not> j < ?n"
      proof
        assume "j < ?n"
        then have "isspace (s ! j)" by (metis nth_mem set_takeWhileD takeWhile_nth)
        moreover have "\<not> isspace (s ! j)"
          using j(2) select_letters by (intro occurs_at_not_space) auto
        ultimately show False by simp
      qed
      ultimately show ?thesis using j(2) by simp
    qed
  next
    assume t: "?tail ?n"
    show "?tail 0 \<or> (\<exists>j. run_between isspace s 0 j \<and> ?tail j)"
    proof (cases "?n = 0")
      case True
      then show ?thesis using t by simp
    next
      case False
      have "\<forall>x<?n. isspace (s ! x)" using le_length_takeWhile[of ?n isspace s] by simp
      then have "run_between isspace s 0 ?n" using False n_le by (auto simp: run_between_def)
      then show ?thesis using t by blast
    qed
  qed
  finally show ?thesis
    unfolding begins_with_select_def Let_def occurs_at_ci[OF ci_select]
    by (simp add: numeral_eq_Suc str_def)
qed

subsection \<open>The limit pattern\<close>

lemma limit_letters: "(str ''limit'') \<noteq> [] \<and> ascii_letter (hd (str ''limit''))"
  by (simp_all add: str_def codepoint_def ascii_letter_def)

lemma ci_limit: "map unicode_fold (str ''limit'') = map unicode_fold (str ''LIMIT'')"
  by code_simp

lemma run_between_digits_end:
  assumes "run_between isdecimal s j k"
  shows "at_boundary s k = ends_word s k"
proof -
  have "is_word (s ! (k - 1))" using run_between_last[OF assms] by (rule isdecimal_is_word)
  moreover have "0 < k" "k \<le> length s" using assms by (auto simp: run_between_def)
  ultimately show ?thesis by (simp add: at_boundary_end)
qed

lemma ends_limit_re:
  assumes "i \<le> length s"
  shows "ends limit_re s i \<noteq> [] \<longleftrightarrow>
     starts_word s i \<and> occurs_at unicode_fold (str ''LIMIT'') s i \<and>
     (\<exists>j k. run_between isspace s (i + 5) j \<and> run_between isdecimal s j k \<and> ends_word s k)"
proof -
  have "ends limit_re s i \<noteq> [] \<longleftrightarrow>
     at_boundary s i \<and> occurs_at unicode_fold (str ''limit'') s i \<and>
     (\<exists>j. run_between isspace s (i + length (str ''limit'')) j \<and>
        (\<exists>k. run_between isdecimal s j k \<and> at_boundary s k))"
    unfolding limit_re_def ends_Boundary_then ends_lits_then[OF assms] ends_Many1_then
      ends_Boundary_nonempty in_category.simps ..
  also have "\<dots> \<longleftrightarrow>
     starts_word s i \<and> occurs_at unicode_fold (str ''limit'') s i \<and>
     (\<exists>j. run_between isspace s (i + length (str ''limit'')) j \<and>
        (\<exists>k. run_between isdecimal s j k \<and> ends_word s k))"
    using occurs_at_boundary_start[of "(str ''limit'')" s i] limit_letters run_between_digits_end[of s]
    by blast
  finally show ?thesis unfolding occurs_at_ci[OF ci_limit] by (simp add: numeral_eq_Suc str_def)
qed

lemma re_search_limit_re: "re_search limit_re s \<longleftrightarrow> has_limit_clause unicode_fold s"
proof -
  have "re_search limit_re s \<longleftrightarrow>
     (\<exists>i\<in>{..length s}. starts_word s i \<and> occurs_at unicode_fold (str ''LIMIT'') s i \<and>
     (\<exists>j k. run_between isspace s (i + 5) j \<and> run_between isdecimal s j k \<and> ends_word s k))"
    unfolding re_search_iff using ends_limit_re by (intro bex_cong refl) simp
  also have "\<dots> \<longleftrightarrow> has_limit_clause unicode_fold s"
    unfolding has_limit_clause_def using run_between_le[of _ s] by (auto simp: Bex_def) blast+
  finally show ?thesis .
qed

subsection \<open>The aggregate pattern\<close>

lemma ends_call:
  assumes "i \<le> length s" "f \<noteq> []" "ascii_letter (hd f)" "map unicode_fold f = map unicode_fold g"
  shows "ends (Seq Boundary (lits f)) s i \<noteq> [] \<longleftrightarrow> starts_word s i \<and> occurs_at unicode_fold g s i"
proof -
  have "ends (Seq Boundary (lits f)) s i \<noteq> [] \<longleftrightarrow> at_boundary s i \<and> occurs_at unicode_fold f s i"
    unfolding ends_Boundary_then ends_lits_nonempty[OF assms(1)] ..
  also have "\<dots> \<longleftrightarrow> starts_word s i \<and> occurs_at unicode_fold f s i"
    using occurs_at_boundary_start[OF _ assms(2,3), of s i] by blast
  finally show ?thesis unfolding occurs_at_ci[OF assms(4)] .
qed

lemma call_letters:
  "(str ''count('') \<noteq> [] \<and> ascii_letter (hd (str ''count(''))" "(str ''sum('') \<noteq> [] \<and> ascii_letter (hd (str ''sum(''))"
  "(str ''avg('') \<noteq> [] \<and> ascii_letter (hd (str ''avg(''))" "(str ''max('') \<noteq> [] \<and> ascii_letter (hd (str ''max(''))"
  "(str ''min('') \<noteq> [] \<and> ascii_letter (hd (str ''min(''))" "(str ''group'') \<noteq> [] \<and> ascii_letter (hd (str ''group''))"
  "(str ''by'') \<noteq> [] \<and> ascii_letter (last (str ''by''))"
  by (simp_all add: str_def codepoint_def ascii_letter_def)

lemma ci_calls:
  "map unicode_fold (str ''count('') = map unicode_fold (str ''COUNT('')"
  "map unicode_fold (str ''sum('') = map unicode_fold (str ''SUM('')"
  "map unicode_fold (str ''avg('') = map unicode_fold (str ''AVG('')"
  "map unicode_fold (str ''max('') = map unicode_fold (str ''MAX('')"
  "map unicode_fold (str ''min('') = map unicode_fold (str ''MIN('')"
  "map unicode_fold (str ''group'') = map unicode_fold (str ''GROUP'')"
  "map unicode_fold (str ''by'') = map unicode_fold (str ''BY'')"
  by code_simp+

lemma ends_group_by:
  assumes "i \<le> length s"
  shows "ends (Seq Boundary (Seq (lits (str ''group'')) (Seq (Many1 Space) (Seq (lits (str ''by'')) Boundary)))) s i
           \<noteq> [] \<longleftrightarrow>
     starts_word s i \<and> occurs_at unicode_fold (str ''GROUP'') s i \<and>
     (\<exists>j. run_between isspace s (i + 5) j \<and> occurs_at unicode_fold (str ''BY'') s j \<and> ends_word s (j + 2))"
proof -
  have tail: "ends (Seq (lits (str ''by'')) Boundary) s j \<noteq> [] \<longleftrightarrow>
        occurs_at unicode_fold (str ''by'') s j \<and> ends_word s (j + length (str ''by''))" if "j \<le> length s" for j
    unfolding ends_lits_then[OF that] ends_Boundary_nonempty
    using occurs_at_boundary_end[of "(str ''by'')" s j] call_letters(7) by blast
  have "ends (Seq Boundary (Seq (lits (str ''group'')) (Seq (Many1 Space) (Seq (lits (str ''by'')) Boundary)))) s i
           \<noteq> [] \<longleftrightarrow>
     at_boundary s i \<and> occurs_at unicode_fold (str ''group'') s i \<and>
     (\<exists>j. run_between isspace s (i + length (str ''group'')) j \<and>
          ends (Seq (lits (str ''by'')) Boundary) s j \<noteq> [])"
    unfolding ends_Boundary_then ends_lits_then[OF assms] ends_Many1_then in_category.simps ..
  also have "\<dots> \<longleftrightarrow>
     starts_word s i \<and> occurs_at unicode_fold (str ''group'') s i \<and>
     (\<exists>j. run_between isspace s (i + length (str ''group'')) j \<and>
          occurs_at unicode_fold (str ''by'') s j \<and> ends_word s (j + length (str ''by'')))"
    using occurs_at_boundary_start[of "(str ''group'')" s i] call_letters(6) tail
      run_between_le[of isspace s]
    by blast
  finally show ?thesis
    unfolding occurs_at_ci[OF ci_calls(6)] occurs_at_ci[OF ci_calls(7)]
    by (simp add: numeral_eq_Suc str_def)
qed

lemma ends_aggregate_re:
  assumes "i \<le> length s"
  shows "ends aggregate_re s i \<noteq> [] \<longleftrightarrow>
     (\<exists>f\<in>set aggregate_calls. starts_word s i \<and> occurs_at unicode_fold f s i) \<or>
     (starts_word s i \<and> occurs_at unicode_fold (str ''GROUP'') s i \<and>
       (\<exists>j. run_between isspace s (i + 5) j \<and> occurs_at unicode_fold (str ''BY'') s j \<and> ends_word s (j + 2)))"
  unfolding aggregate_re_def ends_Alt_nonempty ends_group_by[OF assms]
    ends_call[OF assms conjunct1[OF call_letters(1)] conjunct2[OF call_letters(1)] ci_calls(1)]
    ends_call[OF assms conjunct1[OF call_letters(2)] conjunct2[OF call_letters(2)] ci_calls(2)]
    ends_call[OF assms conjunct1[OF call_letters(3)] conjunct2[OF call_letters(3)] ci_calls(3)]
    ends_call[OF assms conjunct1[OF call_letters(4)] conjunct2[OF call_letters(4)] ci_calls(4)]
    ends_call[OF assms conjunct1[OF call_letters(5)] conjunct2[OF call_letters(5)] ci_calls(5)]
    aggregate_calls_def
  by (simp only: list.set bex_simps Bex_def insert_iff empty_iff) blast

lemma re_search_aggregate_re:
  "re_search aggregate_re s \<longleftrightarrow> has_aggregate_call unicode_fold s \<or> has_group_by unicode_fold s"
proof -
  have "re_search aggregate_re s \<longleftrightarrow>
     (\<exists>i\<in>{..length s}. (\<exists>f\<in>set aggregate_calls. starts_word s i \<and> occurs_at unicode_fold f s i) \<or>
     (starts_word s i \<and> occurs_at unicode_fold (str ''GROUP'') s i \<and>
       (\<exists>j. run_between isspace s (i + 5) j \<and> occurs_at unicode_fold (str ''BY'') s j \<and> ends_word s (j + 2))))"
    unfolding re_search_iff using ends_aggregate_re by (intro bex_cong refl) simp
  also have "\<dots> \<longleftrightarrow> has_aggregate_call unicode_fold s \<or> has_group_by unicode_fold s"
    unfolding has_aggregate_call_def has_group_by_def using run_between_le[of isspace s]
    by (auto simp: Bex_def)
  finally show ?thesis .
qed

subsection \<open>The branches of \<open>_run\<close>\<close>

lemma passes_validation_iff:
  "passes_validation s \<longleftrightarrow>
     \<not> re_search write_re s \<and> codepoint CHR '';'' \<notin> set s \<and> re_match select_re s"
  by (simp add: passes_validation_def re_search_write_re re_match_select_re)

lemma auto_limit_iff:
  "auto_limit s =
     (if \<not> has_limit_clause unicode_fold s \<and> \<not> has_aggregate_call unicode_fold s \<and> \<not> has_group_by unicode_fold s
      then s @ (str '' LIMIT 200'') else s)"
  by (simp add: auto_limit_def re_search_limit_re re_search_aggregate_re)

lemma exec_driver_sql_executed: "executed (snd (exec_driver_sql drv q e)) = executed e @ [q]"
  by (simp add: exec_driver_sql_def split: prod.split)

lemma run_accepted:
  assumes "passes_validation (trim sql)"
  shows "run drv sql e =
     (case exec_driver_sql drv (auto_limit (trim sql)) e of
        (Inr (keys, rws), e') \<Rightarrow> (Inr (Dict keys rws), e')
      | (Inl (Exception m), e') \<Rightarrow> (Inr (Str ((str ''ERROR: '') @ m)), e')
      | (Inl (Base_Exception m), e') \<Rightarrow> (Inl (Base_Exception m), e'))"
  using assms unfolding passes_validation_iff run_def Let_def
  by (auto split: prod.split sum.split py_exc.split)

lemma run_accepted_snd:
  "passes_validation (trim sql) \<Longrightarrow>
   snd (run drv sql e) = snd (exec_driver_sql drv (auto_limit (trim sql)) e)"
  by (simp add: run_accepted split: prod.split sum.split py_exc.split)

lemma run_rejected:
  assumes "\<not> passes_validation (trim sql)"
  shows "run drv sql e =
     (Inr (Str (if contains_write_keyword unicode_fold (trim sql) then (str ''ERROR: write operations are not allowed.'')
                else if codepoint CHR '';'' \<in> set (trim sql) then (str ''ERROR: multiple statements are not allowed.'')
                else (str ''ERROR: only SELECT statements are allowed.''))), e)"
  using assms unfolding passes_validation_def run_def Let_def re_search_write_re re_match_select_re
  by auto

subsection \<open>\<open>strip\<close> and \<open>rstrip\<close>\<close>

lemma rev_dropWhile_takeWhile: "rev (dropWhile P (rev xs)) @ rev (takeWhile P (rev xs)) = xs"
proof -
  have "rev (dropWhile P (rev xs)) @ rev (takeWhile P (rev xs)) =
        rev (takeWhile P (rev xs) @ dropWhile P (rev xs))"
    by (simp only: rev_append)
  also have "\<dots> = xs" by (simp only: takeWhile_dropWhile_id rev_rev_ident)
  finally show ?thesis .
qed

lemma strip_tail:
  "dropWhile isspace s = strip s @ rev (takeWhile isspace (rev (dropWhile isspace s)))"
  unfolding strip_def by (simp only: rev_dropWhile_takeWhile)

lemma strip_decompose:
  "s = takeWhile isspace s @ strip s @ rev (takeWhile isspace (rev (dropWhile isspace s)))"
proof -
  have "s = takeWhile isspace s @ dropWhile isspace s" by simp
  then show ?thesis using strip_tail[of s] by simp
qed

lemma strip_last: "strip s \<noteq> [] \<Longrightarrow> \<not> isspace (last (strip s))"
  unfolding strip_def by (simp add: last_rev hd_dropWhile)

lemma strip_hd: "strip s \<noteq> [] \<Longrightarrow> \<not> isspace (hd (strip s))"
proof -
  assume a: "strip s \<noteq> []"
  have "dropWhile isspace s \<noteq> []" using a strip_tail[of s] by (metis append_is_Nil_conv)
  then have "\<not> isspace (hd (dropWhile isspace s))" by (rule hd_dropWhile)
  moreover have "hd (dropWhile isspace s) = hd (strip s)"
    using a strip_tail[of s] by (metis hd_append2)
  ultimately show ?thesis by simp
qed

lemma rstrip_decompose: "s = rstrip cs s @ rev (takeWhile (\<lambda>c. c \<in> set cs) (rev s))"
  unfolding rstrip_def by (simp only: rev_dropWhile_takeWhile)

lemma rstrip_last: "rstrip cs s \<noteq> [] \<Longrightarrow> last (rstrip cs s) \<notin> set cs"
  unfolding rstrip_def using hd_dropWhile[of "\<lambda>c. c \<in> set cs" "rev s"] by (simp add: last_rev)

lemma list_all_takeWhile: "list_all P (takeWhile P xs)"
  by (induction xs) auto

subsection \<open>The appended limit keeps the checks\<close>

lemma occurs_at_appendI: "occurs_at unicode_fold w s i \<Longrightarrow> occurs_at unicode_fold w (s @ t) i"
  by (auto simp: occurs_at_def)

lemma occurs_at_append_left:
  "occurs_at unicode_fold w (s @ t) i \<Longrightarrow> i + length w \<le> length s \<Longrightarrow> occurs_at unicode_fold w s i"
  by (auto simp: occurs_at_def)

lemma occurs_at_append_right:
  "occurs_at unicode_fold w (s @ t) i \<Longrightarrow> length s \<le> i \<Longrightarrow> occurs_at unicode_fold w t (i - length s)"
  by (auto simp: occurs_at_def)

lemma ends_word_append:
  assumes "ends_word s j" "j \<le> length s" "t = [] \<or> \<not> is_word (hd t)"
  shows "ends_word (s @ t) j"
proof (cases "j < length s")
  case True
  then show ?thesis using assms(1) by (simp add: ends_word_def nth_append)
next
  case False
  then have "j = length s" using assms(2) by simp
  then show ?thesis using assms(3) by (cases t) (auto simp: ends_word_def)
qed

lemma begins_with_select_append:
  assumes "begins_with_select unicode_fold s" "t = [] \<or> \<not> is_word (hd t)"
  shows "begins_with_select unicode_fold (s @ t)"
proof -
  let ?n = "length (takeWhile isspace s)"
  have o: "occurs_at unicode_fold (str ''SELECT'') s ?n" and e: "ends_word s (?n + 6)"
    using assms(1) by (simp_all add: begins_with_select_def Let_def)
  have b: "?n + 6 \<le> length s" using occurs_at_bound[OF o] by (simp add: str_def)
  then have "?n < length s" by simp
  then have "\<not> isspace (s ! ?n)" by (rule nth_length_takeWhile)
  moreover have "s ! ?n \<in> set s" using \<open>?n < length s\<close> by simp
  ultimately have "takeWhile isspace (s @ t) = takeWhile isspace s"
    by (intro takeWhile_append1)
  then show ?thesis
    using occurs_at_appendI[OF o, of t] ends_word_append[OF e b assms(2)]
    by (simp add: begins_with_select_def Let_def)
qed

lemma write_keywords_letters: "w \<in> set write_keywords \<Longrightarrow> c \<in> set w \<Longrightarrow> ascii_letter c"
  by (auto simp: write_keywords_def str_def codepoint_def ascii_letter_def)

lemma whole_word_at_append:
  assumes ww: "whole_word_at unicode_fold w (s @ t) i"
    and letters: "\<forall>c\<in>set w. ascii_letter c"
    and t: "t \<noteq> []" "\<not> is_word (hd t)"
    and absent: "\<forall>k. \<not> occurs_at unicode_fold w t k"
  shows "whole_word_at unicode_fold w s i"
proof -
  have o: "occurs_at unicode_fold w (s @ t) i" using ww by (simp add: whole_word_at_def)
  have inside: "i + length w \<le> length s"
  proof (rule ccontr)
    assume "\<not> i + length w \<le> length s"
    then have over: "length s < i + length w" by simp
    show False
    proof (cases "length s \<le> i")
      case True
      then show False using occurs_at_append_right[OF o] absent by blast
    next
      case False
      then have n: "length s - i < length w" "i + (length s - i) = length s" using over by auto
      have "unicode_fold ((s @ t) ! (i + (length s - i))) = unicode_fold (w ! (length s - i))"
        using o n(1) by (rule occurs_at_nth)
      then have "unicode_fold (hd t) = unicode_fold (w ! (length s - i))"
        using n(2) t(1) by (simp add: nth_append hd_conv_nth)
      moreover have "ascii_letter (w ! (length s - i))" using letters n(1) by simp
      ultimately show False using t(2) fold_letter_is_word by blast
    qed
  qed
  have "occurs_at unicode_fold w s i" using o inside by (rule occurs_at_append_left)
  moreover have "starts_word s i"
  proof (cases "i = 0")
    case True
    then show ?thesis by (simp add: starts_word_def)
  next
    case False
    then have "i - 1 < length s" using inside by simp
    then show ?thesis using ww by (simp add: whole_word_at_def starts_word_def nth_append)
  qed
  moreover have "ends_word s (i + length w)"
  proof (cases "i + length w < length s")
    case True
    then show ?thesis using ww by (simp add: whole_word_at_def ends_word_def nth_append)
  next
    case False
    then show ?thesis by (simp add: ends_word_def)
  qed
  ultimately show ?thesis by (simp add: whole_word_at_def)
qed

lemma occurs_at_alt_search:
  assumes "v \<in> set (w # vs)" "occurs_at unicode_fold v t k"
  shows "re_search (alt_lits w vs) t"
proof -
  have k: "k \<le> length t" using occurs_at_bound[OF assms(2)] by simp
  have "k + length v \<in> set (ends (alt_lits w vs) t k)"
    unfolding set_ends_alt_lits[OF k] using assms by blast
  then have "ends (alt_lits w vs) t k \<noteq> []" by auto
  then show ?thesis unfolding re_search_iff using k by blast
qed

lemma no_write_keyword_in_limit:
  assumes "w \<in> set write_keywords"
  shows "\<not> occurs_at unicode_fold w (str '' LIMIT 200'') k"
proof
  assume o: "occurs_at unicode_fold w (str '' LIMIT 200'') k"
  have "re_search (alt_lits (str ''INSERT'')
      [(str ''UPDATE''), (str ''DELETE''), (str ''DROP''), (str ''TRUNCATE''), (str ''ALTER''), (str ''CREATE''), (str ''REPLACE'')])
      (str '' LIMIT 200'')"
    using assms o unfolding write_keywords_def by (rule occurs_at_alt_search)
  moreover have "\<not> re_search (alt_lits (str ''INSERT'')
      [(str ''UPDATE''), (str ''DELETE''), (str ''DROP''), (str ''TRUNCATE''), (str ''ALTER''), (str ''CREATE''), (str ''REPLACE'')])
      (str '' LIMIT 200'')" by code_simp
  ultimately show False by simp
qed

lemma limit_suffix_head: "(str '' LIMIT 200'') \<noteq> [] \<and> \<not> is_word (hd (str '' LIMIT 200''))"
  by code_simp

lemma contains_write_keyword_limit:
  assumes "contains_write_keyword unicode_fold (s @ (str '' LIMIT 200''))"
  shows "contains_write_keyword unicode_fold s"
proof -
  obtain w i where w: "w \<in> set write_keywords" and ww: "whole_word_at unicode_fold w (s @ (str '' LIMIT 200'')) i"
    using assms by (auto simp: contains_write_keyword_def contains_word_def)
  have "whole_word_at unicode_fold w s i"
    using ww write_keywords_letters[OF w] limit_suffix_head no_write_keyword_in_limit[OF w]
    by (intro whole_word_at_append[of w s "(str '' LIMIT 200'')" i]) blast+
  moreover have "i \<le> length s"
    using calculation occurs_at_bound[of w s i] by (simp add: whole_word_at_def)
  ultimately show ?thesis using w by (auto simp: contains_write_keyword_def contains_word_def)
qed

lemma passes_validation_auto_limit:
  assumes "passes_validation s"
  shows "passes_validation (auto_limit s)"
proof (cases "auto_limit s = s")
  case True
  then show ?thesis using assms by simp
next
  case False
  then have a: "auto_limit s = s @ (str '' LIMIT 200'')" by (simp add: auto_limit_def split: if_splits)
  have "\<not> contains_write_keyword unicode_fold (s @ (str '' LIMIT 200''))"
    using assms contains_write_keyword_limit by (auto simp: passes_validation_def)
  moreover have "codepoint CHR '';'' \<notin> set (str '' LIMIT 200'')" by code_simp
  then have "codepoint CHR '';'' \<notin> set (s @ (str '' LIMIT 200''))"
    using assms by (simp add: passes_validation_def)
  moreover have "begins_with_select unicode_fold (s @ (str '' LIMIT 200''))"
    using assms limit_suffix_head by (intro begins_with_select_append) (auto simp: passes_validation_def)
  ultimately show ?thesis unfolding a by (simp add: passes_validation_def)
qed

subsection \<open>The reading of the specification is within the reading of the guard\<close>

lemma map_fold_ascii:
  "map ascii_lower xs = map ascii_lower ys \<Longrightarrow> map unicode_fold xs = map unicode_fold ys"
proof (induction xs arbitrary: ys)
  case Nil
  then show ?case by simp
next
  case (Cons x xs)
  show ?case
  proof (cases ys)
    case Nil
    then show ?thesis using Cons.prems by simp
  next
    case (Cons y ys')
    then have "ascii_lower x = ascii_lower y" "map ascii_lower xs = map ascii_lower ys'"
      using Cons.prems by simp_all
    then have "unicode_fold x = unicode_fold y" "map unicode_fold xs = map unicode_fold ys'"
      using fold_ascii Cons.IH by blast+
    then show ?thesis using Cons by simp
  qed
qed

lemma occurs_at_fold: "occurs_at ascii_lower w s i \<Longrightarrow> occurs_at unicode_fold w s i"
  unfolding occurs_at_def using map_fold_ascii by blast

lemma contains_word_fold: "contains_word ascii_lower w s \<Longrightarrow> contains_word unicode_fold w s"
  unfolding contains_word_def whole_word_at_def using occurs_at_fold by blast

lemma contains_write_keyword_fold:
  "contains_write_keyword ascii_lower s \<Longrightarrow> contains_write_keyword unicode_fold s"
  unfolding contains_write_keyword_def using contains_word_fold by blast

lemma begins_with_select_fold:
  "begins_with_select ascii_lower s \<Longrightarrow> begins_with_select unicode_fold s"
  unfolding begins_with_select_def Let_def using occurs_at_fold by blast

lemma has_aggregate_call_fold:
  "has_aggregate_call ascii_lower s \<Longrightarrow> has_aggregate_call unicode_fold s"
  unfolding has_aggregate_call_def using occurs_at_fold by blast

lemma has_group_by_fold: "has_group_by ascii_lower s \<Longrightarrow> has_group_by unicode_fold s"
  unfolding has_group_by_def using occurs_at_fold by blast


section \<open>The claims\<close>

text \<open>
  C1. Whenever the trimmed text contains one of the eight write keywords as a whole
  word, in any letter case and wherever it stands (a comment or a string literal is
  text like any other), \<open>_run\<close> returns the write-operation error and leaves the
  engine as it was: no statement reaches the driver.
\<close>

theorem write_keyword_denied:
  "contains_write_keyword ascii_lower (trim sql) \<Longrightarrow> run drv sql e = (Inr WriteOperationDenied, e)"
  by (simp add: run_def re_search_write_re contains_write_keyword_fold WriteOperationDenied_def)

theorem write_keyword_denied_witness:
  "contains_write_keyword ascii_lower (trim (str ''SELECT 1 -- Drop it'')) \<and>
   run (\<lambda>q d w. (Inr ([], []), d, w)) (str ''SELECT 1 -- Drop it'')
       \<lparr>store = (), session = (), executed = []\<rparr> =
     (Inr (WriteOperationDenied :: nat ret), \<lparr>store = (), session = (), executed = []\<rparr>)"
proof -
  have t: "trim (str ''SELECT 1 -- Drop it'') = str ''SELECT 1 -- Drop it''" by code_simp
  have "whole_word_at ascii_lower (str ''DROP'') (str ''SELECT 1 -- Drop it'') 12" by code_simp
  then have "contains_word ascii_lower (str ''DROP'') (str ''SELECT 1 -- Drop it'')"
    unfolding contains_word_def by (intro bexI[of _ 12]) (simp_all add: str_def)
  then have h: "contains_write_keyword ascii_lower (trim (str ''SELECT 1 -- Drop it''))"
    unfolding t contains_write_keyword_def write_keywords_def by simp
  show ?thesis using h write_keyword_denied[OF h] by simp
qed


text \<open>
  C2, as the code has it. The pattern is matched with \<open>re.I\<close> on Unicode text, where the
  long s (U+017F) is read as \<open>s\<close>. A trimmed text that holds no write keyword and no
  statement terminator, and does not begin with the keyword \<open>SELECT\<close> in that reading, is
  answered with the non-SELECT error; the engine is left as it was, so the store is not
  invoked.
\<close>

theorem non_select_denied:
  assumes "\<not> contains_write_keyword unicode_fold (trim sql)"
    and "codepoint CHR '';'' \<notin> set (trim sql)"
    and "\<not> begins_with_select unicode_fold (trim sql)"
  shows "run drv sql e = (Inr NonSelectDenied, e)"
  using assms by (simp add: run_rejected passes_validation_def NonSelectDenied_def)

theorem non_select_denied_witness:
  "\<not> contains_write_keyword unicode_fold (trim (str ''PRAGMA table_info(orders)'')) \<and>
   codepoint CHR '';'' \<notin> set (trim (str ''PRAGMA table_info(orders)'')) \<and>
   \<not> begins_with_select unicode_fold (trim (str ''PRAGMA table_info(orders)'')) \<and>
   run (\<lambda>q d w. (Inr ([], []), d, w)) (str ''PRAGMA table_info(orders)'')
       \<lparr>store = (), session = (), executed = []\<rparr> =
     (Inr (NonSelectDenied :: nat ret), \<lparr>store = (), session = (), executed = []\<rparr>)"
proof -
  have a: "\<not> contains_write_keyword unicode_fold (trim (str ''PRAGMA table_info(orders)''))"
    unfolding re_search_write_re[symmetric] by code_simp
  have b: "codepoint CHR '';'' \<notin> set (trim (str ''PRAGMA table_info(orders)''))" by code_simp
  have c: "\<not> begins_with_select unicode_fold (trim (str ''PRAGMA table_info(orders)''))"
    unfolding re_match_select_re[symmetric] by code_simp
  show ?thesis using a b c non_select_denied[OF a b c] by simp
qed

text \<open>
  The claim as stated fails on a text that begins with the long s: it holds no write
  keyword and no semicolon and does not begin with \<open>SELECT\<close> in any letter case, yet the
  guard accepts it and sends it to the store.
\<close>

theorem non_select_counterexample:
  "\<not> contains_write_keyword ascii_lower (trim (383 # str ''ELECT 1'')) \<and>
   codepoint CHR '';'' \<notin> set (trim (383 # str ''ELECT 1'')) \<and>
   \<not> begins_with_select ascii_lower (trim (383 # str ''ELECT 1'')) \<and>
   run (\<lambda>q d w. (Inr ([], []), d, w)) (383 # str ''ELECT 1'')
       \<lparr>store = (), session = (), executed = []\<rparr> =
     (Inr (Dict [] ([] :: nat list list)),
      \<lparr>store = (), session = (), executed = [383 # str ''ELECT 1 LIMIT 200'']\<rparr>) \<and>
   Dict [] ([] :: nat list list) \<noteq> NonSelectDenied"
proof -
  have "\<not> contains_write_keyword unicode_fold (trim (383 # str ''ELECT 1''))"
    unfolding re_search_write_re[symmetric] by code_simp
  then have a: "\<not> contains_write_keyword ascii_lower (trim (383 # str ''ELECT 1''))"
    using contains_write_keyword_fold by blast
  have b: "codepoint CHR '';'' \<notin> set (trim (383 # str ''ELECT 1''))" by code_simp
  have c: "\<not> begins_with_select ascii_lower (trim (383 # str ''ELECT 1''))" by code_simp
  have d: "run (\<lambda>q d w. (Inr ([], []), d, w)) (383 # str ''ELECT 1'')
       \<lparr>store = (), session = (), executed = []\<rparr> =
     (Inr (Dict [] ([] :: nat list list)),
      \<lparr>store = (), session = (), executed = [383 # str ''ELECT 1 LIMIT 200'']\<rparr>)"
    by code_simp
  show ?thesis using a b c d by (simp add: NonSelectDenied_def)
qed


text \<open>
  C3, as the code has it. The multi-statement check looks at the trimmed text, from
  which every trailing semicolon is gone, and it comes after the write-keyword check:
  a trimmed text that holds a semicolon and, as the guard reads it, no write keyword is
  answered with the multiple-statements error, and the store is not invoked.
\<close>

theorem interior_semicolon_denied:
  assumes "\<not> contains_write_keyword unicode_fold (trim sql)"
    and "codepoint CHR '';'' \<in> set (trim sql)"
  shows "run drv sql e = (Inr MultipleStatementsDenied, e)"
  using assms by (simp add: run_rejected passes_validation_def MultipleStatementsDenied_def)

theorem interior_semicolon_denied_witness:
  "\<not> contains_write_keyword unicode_fold (trim (str ''SELECT 1; SELECT 2'')) \<and>
   codepoint CHR '';'' \<in> set (trim (str ''SELECT 1; SELECT 2'')) \<and>
   run (\<lambda>q d w. (Inr ([], []), d, w)) (str ''SELECT 1; SELECT 2'')
       \<lparr>store = (), session = (), executed = []\<rparr> =
     (Inr (MultipleStatementsDenied :: nat ret), \<lparr>store = (), session = (), executed = []\<rparr>)"
proof -
  have a: "\<not> contains_write_keyword unicode_fold (trim (str ''SELECT 1; SELECT 2''))"
    unfolding re_search_write_re[symmetric] by code_simp
  have b: "codepoint CHR '';'' \<in> set (trim (str ''SELECT 1; SELECT 2''))" by code_simp
  show ?thesis using a b interior_semicolon_denied[OF a b] by simp
qed

text \<open>
  The claim as stated fails twice. In \<open>SELECT 1;;\<close> the first semicolon stands after
  the first character and before the last one, yet both semicolons are trimmed away
  and the statement is executed. In \<open>SELECT 1; DROP TABLE x\<close> the write keyword is
  found first.
\<close>

theorem interior_semicolon_counterexample:
  "semicolon_inside (str ''SELECT 1;;'') \<and>
   run (\<lambda>q d w. (Inr ([], []), d, w)) (str ''SELECT 1;;'')
       \<lparr>store = (), session = (), executed = []\<rparr> =
     (Inr (Dict [] ([] :: nat list list)),
      \<lparr>store = (), session = (), executed = [str ''SELECT 1 LIMIT 200'']\<rparr>) \<and>
   semicolon_inside (str ''SELECT 1; DROP TABLE x'') \<and>
   run (\<lambda>q d w. (Inr ([], []), d, w)) (str ''SELECT 1; DROP TABLE x'')
       \<lparr>store = (), session = (), executed = []\<rparr> =
     (Inr (WriteOperationDenied :: nat ret), \<lparr>store = (), session = (), executed = []\<rparr>) \<and>
   (WriteOperationDenied :: nat ret) \<noteq> MultipleStatementsDenied"
  by code_simp


text \<open>
  C4. The guard caps nothing itself: it only appends \<open> LIMIT 200\<close> to the trimmed
  text and returns every row the store answers with. This SELECT passes the three
  checks and holds neither a limit clause nor an aggregate construct; the clause is
  appended after \<open>--\<close> on the same line, where the store reads it as part of a comment,
  and the 300 rows the store then answers with are all returned.
\<close>

theorem default_limit_inside_comment:
  "passes_validation (trim (str ''SELECT id FROM products -- all'')) \<and>
   \<not> has_limit_clause unicode_fold (trim (str ''SELECT id FROM products -- all'')) \<and>
   \<not> has_aggregate_call unicode_fold (trim (str ''SELECT id FROM products -- all'')) \<and>
   \<not> has_group_by unicode_fold (trim (str ''SELECT id FROM products -- all'')) \<and>
   run (\<lambda>q d w. (Inr ([str ''id''], replicate 300 [0 :: nat]), d, w))
       (str ''SELECT id FROM products -- all'') \<lparr>store = (), session = (), executed = []\<rparr> =
     (Inr (Dict [str ''id''] (replicate 300 [0])),
      \<lparr>store = (), session = (),
       executed = [str ''SELECT id FROM products -- all LIMIT 200'']\<rparr>) \<and>
   length (replicate 300 [0 :: nat]) = 300"
proof -
  have a: "passes_validation (trim (str ''SELECT id FROM products -- all''))"
    unfolding passes_validation_iff by code_simp
  have b: "\<not> has_limit_clause unicode_fold (trim (str ''SELECT id FROM products -- all''))"
    unfolding re_search_limit_re[symmetric] by code_simp
  have "\<not> re_search aggregate_re (trim (str ''SELECT id FROM products -- all''))" by code_simp
  then have c: "\<not> has_aggregate_call unicode_fold (trim (str ''SELECT id FROM products -- all''))"
    "\<not> has_group_by unicode_fold (trim (str ''SELECT id FROM products -- all''))"
    by (simp_all add: re_search_aggregate_re)
  have q: "auto_limit (trim (str ''SELECT id FROM products -- all'')) =
      str ''SELECT id FROM products -- all LIMIT 200''" by code_simp
  have d: "run (\<lambda>q d w. (Inr ([str ''id''], replicate 300 [0 :: nat]), d, w))
       (str ''SELECT id FROM products -- all'') \<lparr>store = (), session = (), executed = []\<rparr> =
     (Inr (Dict [str ''id''] (replicate 300 [0])),
      \<lparr>store = (), session = (),
       executed = [str ''SELECT id FROM products -- all LIMIT 200'']\<rparr>)"
    by (simp add: run_accepted[OF a] q exec_driver_sql_def)
  show ?thesis using a b c d by simp
qed


text \<open>
  C5, as the code has it. The exemption is textual: when the trimmed text passes the
  three checks and holds, at the start of a word and in any letter case, one of
  \<open>count(\<close>, \<open>sum(\<close>, \<open>avg(\<close>, \<open>max(\<close>, \<open>min(\<close> with the parenthesis directly after
  the name, or the word \<open>GROUP\<close>, whitespace and the word \<open>BY\<close>, then exactly the
  trimmed text reaches the store, with or without a limit clause of its own.
\<close>

theorem aggregate_not_limited:
  assumes "passes_validation (trim sql)"
    and "has_aggregate_call ascii_lower (trim sql) \<or> has_group_by ascii_lower (trim sql)"
  shows "executed (snd (run drv sql e)) = executed e @ [trim sql]"
  using assms has_aggregate_call_fold has_group_by_fold
  by (auto simp: run_accepted_snd exec_driver_sql_executed auto_limit_iff)

theorem aggregate_not_limited_witness:
  "passes_validation (trim (str ''SELECT count(*) FROM orders'')) \<and>
   has_aggregate_call ascii_lower (trim (str ''SELECT count(*) FROM orders'')) \<and>
   \<not> has_limit_clause unicode_fold (trim (str ''SELECT count(*) FROM orders'')) \<and>
   executed (snd (run (\<lambda>q d w. (Inr ([str ''count(*)''], [[3 :: nat]]), d, w))
      (str ''SELECT count(*) FROM orders'') \<lparr>store = (), session = (), executed = []\<rparr>)) =
     [str ''SELECT count(*) FROM orders'']"
proof -
  have t: "trim (str ''SELECT count(*) FROM orders'') = str ''SELECT count(*) FROM orders''"
    by code_simp
  have a: "passes_validation (trim (str ''SELECT count(*) FROM orders''))"
    unfolding passes_validation_iff by code_simp
  have "starts_word (str ''SELECT count(*) FROM orders'') 7 \<and>
        occurs_at ascii_lower (str ''COUNT('') (str ''SELECT count(*) FROM orders'') 7"
    by code_simp
  then have b: "has_aggregate_call ascii_lower (trim (str ''SELECT count(*) FROM orders''))"
    unfolding t has_aggregate_call_def aggregate_calls_def
    by (intro bexI[of _ "str ''COUNT(''"] bexI[of _ 7]) (simp_all add: str_def)
  have c: "\<not> has_limit_clause unicode_fold (trim (str ''SELECT count(*) FROM orders''))"
    unfolding re_search_limit_re[symmetric] by code_simp
  show ?thesis
    using a b c aggregate_not_limited[OF a disjI1[OF b],
        where drv = "\<lambda>q d w. (Inr ([str ''count(*)''], [[3 :: nat]]), d, w)"
          and e = "\<lparr>store = (), session = (), executed = []\<rparr>"]
    by (simp add: t)
qed

text \<open>
  The claim as stated fails when the name and the parenthesis are apart: this SELECT
  passes the checks and calls the aggregate function \<open>COUNT\<close>, yet the guard does not
  recognise the call and appends the limit.
\<close>

theorem aggregate_counterexample:
  "passes_validation (trim (str ''SELECT count (*) FROM orders'')) \<and>
   contains_word ascii_lower (str ''COUNT'') (trim (str ''SELECT count (*) FROM orders'')) \<and>
   mentions_aggregate ascii_lower (trim (str ''SELECT count (*) FROM orders'')) \<and>
   executed (snd (run (\<lambda>q d w. (Inr ([], [] :: nat list list), d, w))
      (str ''SELECT count (*) FROM orders'') \<lparr>store = (), session = (), executed = []\<rparr>)) =
     [str ''SELECT count (*) FROM orders LIMIT 200''] \<and>
   str ''SELECT count (*) FROM orders LIMIT 200'' \<noteq> trim (str ''SELECT count (*) FROM orders'')"
proof -
  have t: "trim (str ''SELECT count (*) FROM orders'') = str ''SELECT count (*) FROM orders''"
    by code_simp
  have a: "passes_validation (trim (str ''SELECT count (*) FROM orders''))"
    unfolding passes_validation_iff by code_simp
  have "whole_word_at ascii_lower (str ''COUNT'') (str ''SELECT count (*) FROM orders'') 7"
    by code_simp
  then have b: "contains_word ascii_lower (str ''COUNT'') (trim (str ''SELECT count (*) FROM orders''))"
    unfolding t contains_word_def by (intro bexI[of _ 7]) (simp_all add: str_def)
  then have c: "mentions_aggregate ascii_lower (trim (str ''SELECT count (*) FROM orders''))"
    unfolding mentions_aggregate_def aggregate_names_def by simp
  have d: "executed (snd (run (\<lambda>q d w. (Inr ([], [] :: nat list list), d, w))
      (str ''SELECT count (*) FROM orders'') \<lparr>store = (), session = (), executed = []\<rparr>)) =
     [str ''SELECT count (*) FROM orders LIMIT 200'']"
    by code_simp
  have e: "str ''SELECT count (*) FROM orders LIMIT 200'' \<noteq> trim (str ''SELECT count (*) FROM orders'')"
    by code_simp
  show ?thesis using a b c d e by simp
qed


text \<open>
  C6, as the code has it. \<open>sql.strip().rstrip(";")\<close> first removes the whitespace at
  both ends and then every trailing semicolon, however many: the input is whitespace,
  the stripped text, whitespace; the stripped text neither begins nor ends with
  whitespace; it is the trimmed text followed by semicolons only; and the trimmed
  text does not end with a semicolon. Whitespace that stood before the removed
  semicolons stays.
\<close>

theorem trim_removes_all_trailing_semicolons:
  "\<exists>pre semis ws.
     sql = pre @ strip sql @ ws \<and> list_all isspace pre \<and> list_all isspace ws \<and>
     (strip sql \<noteq> [] \<longrightarrow> \<not> isspace (hd (strip sql)) \<and> \<not> isspace (last (strip sql))) \<and>
     strip sql = trim sql @ semis \<and> list_all (\<lambda>c. c = codepoint CHR '';'') semis \<and>
     (trim sql \<noteq> [] \<longrightarrow> last (trim sql) \<noteq> codepoint CHR '';'')"
proof -
  let ?pre = "takeWhile isspace sql"
  let ?ws = "rev (takeWhile isspace (rev (dropWhile isspace sql)))"
  let ?semis = "rev (takeWhile (\<lambda>c. c \<in> set (str '';'')) (rev (strip sql)))"
  have 1: "sql = ?pre @ strip sql @ ?ws" by (rule strip_decompose)
  have 2: "list_all isspace ?pre" by (rule list_all_takeWhile)
  have 3: "list_all isspace ?ws" by (simp only: list_all_rev list_all_takeWhile)
  have 4: "strip sql \<noteq> [] \<longrightarrow> \<not> isspace (hd (strip sql)) \<and> \<not> isspace (last (strip sql))"
    using strip_hd strip_last by blast
  have 5: "strip sql = trim sql @ ?semis" unfolding trim_def by (rule rstrip_decompose)
  have "list_all (\<lambda>c. c \<in> set (str '';'')) ?semis" by (simp only: list_all_rev list_all_takeWhile)
  then have 6: "list_all (\<lambda>c. c = codepoint CHR '';'') ?semis" by (simp add: str_def)
  have 7: "trim sql \<noteq> [] \<longrightarrow> last (trim sql) \<noteq> codepoint CHR '';''"
    unfolding trim_def using rstrip_last[of "str '';''" "strip sql"] by (auto simp: str_def)
  show ?thesis using 1 2 3 4 5 6 7 by blast
qed

theorem trim_removes_all_trailing_semicolons_witness:
  "trim (str '' SELECT 1 ;; '') = str ''SELECT 1 '' \<and>
   strip (str '' SELECT 1 ;; '') = str ''SELECT 1 ;;'' \<and>
   (\<exists>pre semis ws. str '' SELECT 1 ;; '' = pre @ strip (str '' SELECT 1 ;; '') @ ws \<and>
      strip (str '' SELECT 1 ;; '') = trim (str '' SELECT 1 ;; '') @ semis \<and>
      list_all (\<lambda>c. c = codepoint CHR '';'') semis) \<and>
   \<not> isspace (hd (strip (str '' SELECT 1 ;; ''))) \<and>
   \<not> isspace (last (strip (str '' SELECT 1 ;; ''))) \<and>
   last (trim (str '' SELECT 1 ;; '')) \<noteq> codepoint CHR '';''"
proof -
  have a: "trim (str '' SELECT 1 ;; '') = str ''SELECT 1 ''"
    and b: "strip (str '' SELECT 1 ;; '') = str ''SELECT 1 ;;''"
    by code_simp+
  have c: "trim (str '' SELECT 1 ;; '') \<noteq> []" "strip (str '' SELECT 1 ;; '') \<noteq> []"
    unfolding a b by (simp_all add: str_def)
  obtain pre semis ws where
    d: "str '' SELECT 1 ;; '' = pre @ strip (str '' SELECT 1 ;; '') @ ws"
      "strip (str '' SELECT 1 ;; '') \<noteq> [] \<longrightarrow>
         \<not> isspace (hd (strip (str '' SELECT 1 ;; ''))) \<and>
         \<not> isspace (last (strip (str '' SELECT 1 ;; '')))"
      "strip (str '' SELECT 1 ;; '') = trim (str '' SELECT 1 ;; '') @ semis"
      "list_all (\<lambda>c. c = codepoint CHR '';'') semis"
      "trim (str '' SELECT 1 ;; '') \<noteq> [] \<longrightarrow> last (trim (str '' SELECT 1 ;; '')) \<noteq> codepoint CHR '';''"
    using trim_removes_all_trailing_semicolons[of "str '' SELECT 1 ;; ''"] by blast
  show ?thesis using a b c d by blast
qed

text \<open>
  The claim's own example fails: of the two semicolons that end \<open>SELECT 1;;\<close> none is
  left after trimming, and the statement is executed.
\<close>

theorem trim_counterexample:
  "trim (str ''SELECT 1;;'') = str ''SELECT 1'' \<and> trim (str ''SELECT 1;;'') \<noteq> str ''SELECT 1;'' \<and>
   codepoint CHR '';'' \<notin> set (trim (str ''SELECT 1;;'')) \<and>
   executed (snd (run (\<lambda>q d w. (Inr ([], [] :: nat list list), d, w)) (str ''SELECT 1;;'')
      \<lparr>store = (), session = (), executed = []\<rparr>)) = [str ''SELECT 1 LIMIT 200'']"
  by code_simp


text \<open>
  C7, as the code has it. Each rule is read on the trimmed text and with the guard's
  own matching: a rejected input gets the first of the three reasons whose check fails,
  in the order write-operation, multi-statement, statement-kind, and the engine is
  untouched. The three reasons are different values, so a trimmed text with a write
  keyword and a semicolon is answered with the write-operation error and not with the
  multiple-statements error.
\<close>

theorem first_violation_reported:
  fixes drv :: "('db, 's, 'v) driver"
  assumes "\<not> passes_validation (trim sql)"
  shows "run drv sql e =
     (Inr (if contains_write_keyword unicode_fold (trim sql) then WriteOperationDenied
           else if codepoint CHR '';'' \<in> set (trim sql) then MultipleStatementsDenied
           else NonSelectDenied), e) \<and>
     (WriteOperationDenied :: 'v ret) \<noteq> MultipleStatementsDenied \<and>
     (WriteOperationDenied :: 'v ret) \<noteq> NonSelectDenied \<and>
     (MultipleStatementsDenied :: 'v ret) \<noteq> NonSelectDenied"
proof -
  have "str ''ERROR: write operations are not allowed.'' \<noteq>
        str ''ERROR: multiple statements are not allowed.''"
    "str ''ERROR: write operations are not allowed.'' \<noteq>
        str ''ERROR: only SELECT statements are allowed.''"
    "str ''ERROR: multiple statements are not allowed.'' \<noteq>
        str ''ERROR: only SELECT statements are allowed.''"
    by (simp_all add: str_def)
  then show ?thesis
    using run_rejected[OF assms, of drv e]
    by (simp add: WriteOperationDenied_def MultipleStatementsDenied_def NonSelectDenied_def)
qed

theorem first_violation_reported_witness:
  "\<not> passes_validation (trim (str ''DROP TABLE a; DROP TABLE b'')) \<and>
   contains_write_keyword unicode_fold (trim (str ''DROP TABLE a; DROP TABLE b'')) \<and>
   codepoint CHR '';'' \<in> set (trim (str ''DROP TABLE a; DROP TABLE b'')) \<and>
   \<not> begins_with_select unicode_fold (trim (str ''DROP TABLE a; DROP TABLE b'')) \<and>
   run (\<lambda>q d w. (Inr ([], []), d, w)) (str ''DROP TABLE a; DROP TABLE b'')
       \<lparr>store = (), session = (), executed = []\<rparr> =
     (Inr (WriteOperationDenied :: nat ret), \<lparr>store = (), session = (), executed = []\<rparr>)"
proof -
  have a: "contains_write_keyword unicode_fold (trim (str ''DROP TABLE a; DROP TABLE b''))"
    unfolding re_search_write_re[symmetric] by code_simp
  then have h: "\<not> passes_validation (trim (str ''DROP TABLE a; DROP TABLE b''))"
    by (simp add: passes_validation_def)
  have b: "codepoint CHR '';'' \<in> set (trim (str ''DROP TABLE a; DROP TABLE b''))" by code_simp
  have c: "\<not> begins_with_select unicode_fold (trim (str ''DROP TABLE a; DROP TABLE b''))"
    unfolding re_match_select_re[symmetric] by code_simp
  show ?thesis
    using a b c h
      first_violation_reported[OF h, where drv = "\<lambda>q d w. (Inr ([], [] :: nat list list), d, w)"
        and e = "\<lparr>store = (), session = (), executed = []\<rparr>"]
    by simp
qed

text \<open>
  The claim as stated fails where the rules are read on the input: in \<open>PRAGMA x;;;\<close> a
  semicolon stands inside the input and the text does not begin with \<open>SELECT\<close>, so
  the multi-statement rule is the earliest one violated; the semicolons are trimmed
  away and the later rule's reason is reported.
\<close>

theorem first_violation_counterexample:
  "\<not> contains_write_keyword ascii_lower (trim (str ''PRAGMA x;;;'')) \<and>
   semicolon_inside (str ''PRAGMA x;;;'') \<and>
   \<not> begins_with_select ascii_lower (trim (str ''PRAGMA x;;;'')) \<and>
   run (\<lambda>q d w. (Inr ([], []), d, w)) (str ''PRAGMA x;;;'')
       \<lparr>store = (), session = (), executed = []\<rparr> =
     (Inr (NonSelectDenied :: nat ret), \<lparr>store = (), session = (), executed = []\<rparr>) \<and>
   (NonSelectDenied :: nat ret) \<noteq> MultipleStatementsDenied"
proof -
  have "\<not> contains_write_keyword unicode_fold (trim (str ''PRAGMA x;;;''))"
    unfolding re_search_write_re[symmetric] by code_simp
  then have a: "\<not> contains_write_keyword ascii_lower (trim (str ''PRAGMA x;;;''))"
    using contains_write_keyword_fold by blast
  have b: "semicolon_inside (str ''PRAGMA x;;;'')" by code_simp
  have "\<not> begins_with_select unicode_fold (trim (str ''PRAGMA x;;;''))"
    unfolding re_match_select_re[symmetric] by code_simp
  then have c: "\<not> begins_with_select ascii_lower (trim (str ''PRAGMA x;;;''))"
    using begins_with_select_fold by blast
  have d: "run (\<lambda>q d w. (Inr ([], []), d, w)) (str ''PRAGMA x;;;'')
       \<lparr>store = (), session = (), executed = []\<rparr> =
     (Inr (NonSelectDenied :: nat ret), \<lparr>store = (), session = (), executed = []\<rparr>) \<and>
   (NonSelectDenied :: nat ret) \<noteq> MultipleStatementsDenied"
    by code_simp
  show ?thesis using a b c d by simp
qed


text \<open>
  C8, as the code has it. For an input that reaches the execution step, what the
  store does with the statement decides what \<open>_run\<close> does: an \<open>Exception\<close> is returned
  as the error value with the store's message, a result is returned as the dictionary
  of its column names and of all its rows in the store's order, and an exception that
  is not an \<open>Exception\<close> leaves \<open>_run\<close>, since \<open>except Exception\<close> does not catch it.
\<close>

theorem store_outcome_returned:
  assumes "passes_validation (trim sql)"
    and "drv (auto_limit (trim sql)) (store e) (session e) = (out, db, s)"
  shows "fst (run drv sql e) =
     (case out of
        Inl (Exception m) \<Rightarrow> Inr (ExecutionError m)
      | Inl (Base_Exception m) \<Rightarrow> Inl (Base_Exception m)
      | Inr (keys, rws) \<Rightarrow> Inr (Dict keys rws))"
proof -
  have x: "exec_driver_sql drv (auto_limit (trim sql)) e =
      (out, \<lparr>store = db, session = s, executed = executed e @ [auto_limit (trim sql)]\<rparr>)"
    using assms(2) by (simp add: exec_driver_sql_def)
  show ?thesis
    unfolding run_accepted[OF assms(1)] x
    by (auto simp: ExecutionError_def split: sum.split py_exc.split)
qed

theorem store_outcome_returned_witness:
  "passes_validation (trim (str ''SELECT name FROM missing'')) \<and>
   fst (run (\<lambda>q d w. (Inl (Exception (str ''no such table: missing'')), d, w))
          (str ''SELECT name FROM missing'') \<lparr>store = (), session = (), executed = []\<rparr>) =
     Inr (ExecutionError (str ''no such table: missing'') :: nat ret) \<and>
   fst (run (\<lambda>q d w. (Inr ([str ''name''], [[1], [2]]), d, w))
          (str ''SELECT name FROM missing'') \<lparr>store = (), session = (), executed = []\<rparr>) =
     Inr (Dict [str ''name''] [[1], [2 :: nat]])"
proof -
  have h: "passes_validation (trim (str ''SELECT name FROM missing''))"
    unfolding passes_validation_iff by code_simp
  have "(\<lambda>q d w. (Inl (Exception (str ''no such table: missing'')), d, w))
          (auto_limit (trim (str ''SELECT name FROM missing'')))
          (store \<lparr>store = (), session = (), executed = []\<rparr>)
          (session \<lparr>store = (), session = (), executed = []\<rparr>) =
        (Inl (Exception (str ''no such table: missing'')) :: py_exc + ustring list \<times> nat list list,
         (), ())"
    by simp
  from store_outcome_returned[
      where drv = "\<lambda>q d w. (Inl (Exception (str ''no such table: missing'')), d, w)"
      and e = "\<lparr>store = (), session = (), executed = []\<rparr>", OF h this]
  have 1: "fst (run (\<lambda>q d w. (Inl (Exception (str ''no such table: missing'')), d, w))
          (str ''SELECT name FROM missing'') \<lparr>store = (), session = (), executed = []\<rparr>) =
     Inr (ExecutionError (str ''no such table: missing'') :: nat ret)" by simp
  have "(\<lambda>q d w. (Inr ([str ''name''], [[1], [2]]), d, w))
          (auto_limit (trim (str ''SELECT name FROM missing'')))
          (store \<lparr>store = (), session = (), executed = []\<rparr>)
          (session \<lparr>store = (), session = (), executed = []\<rparr>) =
        (Inr ([str ''name''], [[1], [2 :: nat]]) :: py_exc + ustring list \<times> nat list list,
         (), ())"
    by simp
  from store_outcome_returned[
      where drv = "\<lambda>q d w. (Inr ([str ''name''], [[1], [2]]), d, w)"
      and e = "\<lparr>store = (), session = (), executed = []\<rparr>", OF h this]
  have 2: "fst (run (\<lambda>q d w. (Inr ([str ''name''], [[1], [2]]), d, w))
          (str ''SELECT name FROM missing'') \<lparr>store = (), session = (), executed = []\<rparr>) =
     Inr (Dict [str ''name''] [[1], [2 :: nat]])" by simp
  show ?thesis using h 1 2 by simp
qed

text \<open>
  The claim as stated fails when the store is interrupted: the exception is not an
  \<open>Exception\<close> and leaves \<open>_run\<close>.
\<close>

theorem store_outcome_counterexample:
  "passes_validation (trim (str ''SELECT 1'')) \<and>
   fst (run (\<lambda>q d w. (Inl (Base_Exception (str ''KeyboardInterrupt'')) ::
                py_exc + ustring list \<times> nat list list, d, w))
          (str ''SELECT 1'') \<lparr>store = (), session = (), executed = []\<rparr>) =
     Inl (Base_Exception (str ''KeyboardInterrupt''))"
proof -
  have h: "passes_validation (trim (str ''SELECT 1''))"
    unfolding passes_validation_iff by code_simp
  show ?thesis using h by (simp add: run_accepted[OF h] exec_driver_sql_def)
qed


text \<open>
  C9, as the code has it. The guard adds nothing of its own: the statement it sends is
  a function of the input string, and what it returns is a function of the input string
  and of the store's answer to that statement. Two calls with the same string return the
  same value whenever the store answers the statement alike both times. Whether it does
  is the store's affair: a database left unchanged does not make it so.
\<close>

theorem same_answer_same_result:
  fixes drv :: "('db, 's, 'v) driver" and e1 e2 :: "('db, 's) engine"
  assumes "fst (drv (auto_limit (trim sql)) (store e1) (session e1)) =
           fst (drv (auto_limit (trim sql)) (store e2) (session e2))"
  shows "fst (run drv sql e1) = fst (run drv sql e2) \<and>
         executed (snd (run drv sql e1)) =
           executed e1 @ (if passes_validation (trim sql) then [auto_limit (trim sql)] else [])"
proof (cases "passes_validation (trim sql)")
  case True
  have "fst (exec_driver_sql drv (auto_limit (trim sql)) e1) =
        fst (exec_driver_sql drv (auto_limit (trim sql)) e2)"
    using assms by (auto simp: exec_driver_sql_def split: prod.split)
  then have "fst (run drv sql e1) = fst (run drv sql e2)"
    unfolding run_accepted[OF True]
    by (auto split: prod.split sum.split py_exc.split)
  then show ?thesis using True by (simp add: run_accepted_snd exec_driver_sql_executed)
next
  case False
  then show ?thesis by (simp add: run_rejected)
qed

theorem same_answer_same_result_witness:
  "run (\<lambda>q d w. (Inr ([str ''n''], [[d], [d + 1]]), d, w)) (str ''SELECT n FROM t'')
       \<lparr>store = 7, session = (), executed = []\<rparr> =
     (Inr (Dict [str ''n''] [[7 :: nat], [8]]),
      \<lparr>store = 7, session = (), executed = [str ''SELECT n FROM t LIMIT 200'']\<rparr>) \<and>
   fst (run (\<lambda>q d w. (Inr ([str ''n''], [[d], [d + 1]]), d, w)) (str ''SELECT n FROM t'')
          \<lparr>store = 7, session = (), executed = [str ''SELECT n FROM t LIMIT 200'']\<rparr>) =
     Inr (Dict [str ''n''] [[7 :: nat], [8]])"
proof -
  have h: "run (\<lambda>q d w. (Inr ([str ''n''], [[d], [d + 1]]), d, w)) (str ''SELECT n FROM t'')
       \<lparr>store = 7, session = (), executed = []\<rparr> =
     (Inr (Dict [str ''n''] [[7 :: nat], [8]]),
      \<lparr>store = 7, session = (), executed = [str ''SELECT n FROM t LIMIT 200'']\<rparr>)"
    by code_simp
  have "fst (run (\<lambda>q d w. (Inr ([str ''n''], [[d], [d + 1]]), d, w)) (str ''SELECT n FROM t'')
          \<lparr>store = 7 :: nat, session = (), executed = [str ''SELECT n FROM t LIMIT 200'']\<rparr>) =
        fst (run (\<lambda>q d w. (Inr ([str ''n''], [[d], [d + 1]]), d, w)) (str ''SELECT n FROM t'')
          \<lparr>store = 7, session = (), executed = []\<rparr>)"
    using same_answer_same_result[
        where drv = "\<lambda>q d w. (Inr ([str ''n''], [[d], [d + 1 :: nat]]), d, w)"
        and sql = "str ''SELECT n FROM t''"
        and ?e1.0 = "\<lparr>store = 7, session = (), executed = [str ''SELECT n FROM t LIMIT 200'']\<rparr>"
        and ?e2.0 = "\<lparr>store = 7, session = (), executed = []\<rparr>"]
    by simp
  then show ?thesis using h by simp
qed

text \<open>
  The claim as stated fails on a statement whose answer does not depend on the database
  alone: \<open>SELECT random()\<close> passes the guard, the first call leaves the database as it
  was, and the second call returns another value.
\<close>

theorem same_result_counterexample:
  "run (\<lambda>q d w. (Inr ([str ''random()''], [[w]]), d, w + 1)) (str ''SELECT random()'')
       \<lparr>store = (), session = 7, executed = []\<rparr> =
     (Inr (Dict [str ''random()''] [[7 :: nat]]),
      \<lparr>store = (), session = 8, executed = [str ''SELECT random() LIMIT 200'']\<rparr>) \<and>
   store \<lparr>store = (), session = 8 :: nat, executed = [str ''SELECT random() LIMIT 200'']\<rparr> =
     store \<lparr>store = (), session = 7 :: nat, executed = []\<rparr> \<and>
   fst (run (\<lambda>q d w. (Inr ([str ''random()''], [[w]]), d, w + 1)) (str ''SELECT random()'')
          \<lparr>store = (), session = 8, executed = [str ''SELECT random() LIMIT 200'']\<rparr>) =
     Inr (Dict [str ''random()''] [[8 :: nat]]) \<and>
   Dict [str ''random()''] [[8 :: nat]] \<noteq> Dict [str ''random()''] [[7]]"
  by code_simp


text \<open>
  C10, as the code has it. For every input, either \<open>_run\<close> returns one of the three
  validation errors and hands nothing to the store, or exactly one statement reaches
  the store, and that statement begins (after optional whitespace) with the keyword
  \<open>SELECT\<close> as the guard reads it, holds no semicolon and holds none of the eight write
  keywords as a whole word, in the guard's reading and so in any letter case. The
  limit the guard appends keeps all three.
\<close>

theorem executed_statement_invariant:
  fixes drv :: "('db, 's, 'v) driver"
  shows "(fst (run drv sql e) \<in>
            {Inr WriteOperationDenied, Inr MultipleStatementsDenied, Inr NonSelectDenied} \<and>
          snd (run drv sql e) = e) \<or>
         (\<exists>q. executed (snd (run drv sql e)) = executed e @ [q] \<and>
              begins_with_select unicode_fold q \<and> codepoint CHR '';'' \<notin> set q \<and>
              \<not> contains_write_keyword unicode_fold q \<and>
              \<not> contains_write_keyword ascii_lower q)"
proof (cases "passes_validation (trim sql)")
  case True
  have "executed (snd (run drv sql e)) = executed e @ [auto_limit (trim sql)]"
    using True by (simp add: run_accepted_snd exec_driver_sql_executed)
  moreover have "passes_validation (auto_limit (trim sql))"
    using True by (rule passes_validation_auto_limit)
  ultimately show ?thesis
    unfolding passes_validation_def using contains_write_keyword_fold by blast
next
  case False
  then show ?thesis
    by (simp add: run_rejected WriteOperationDenied_def MultipleStatementsDenied_def
        NonSelectDenied_def)
qed

theorem executed_statement_invariant_witness:
  "fst (run (\<lambda>q d w. (Inr ([str ''name''], [[1 :: nat]]), d, w))
          (str ''  select name from products;'') \<lparr>store = (), session = (), executed = []\<rparr>) \<notin>
     {Inr WriteOperationDenied, Inr MultipleStatementsDenied, Inr NonSelectDenied} \<and>
   executed (snd (run (\<lambda>q d w. (Inr ([str ''name''], [[1 :: nat]]), d, w))
          (str ''  select name from products;'') \<lparr>store = (), session = (), executed = []\<rparr>)) =
     [str ''select name from products LIMIT 200''] \<and>
   begins_with_select unicode_fold (str ''select name from products LIMIT 200'') \<and>
   codepoint CHR '';'' \<notin> set (str ''select name from products LIMIT 200'') \<and>
   \<not> contains_write_keyword unicode_fold (str ''select name from products LIMIT 200'')"
proof -
  have r: "run (\<lambda>q d w. (Inr ([str ''name''], [[1 :: nat]]), d, w))
          (str ''  select name from products;'') \<lparr>store = (), session = (), executed = []\<rparr> =
        (Inr (Dict [str ''name''] [[1]]),
         \<lparr>store = (), session = (), executed = [str ''select name from products LIMIT 200'']\<rparr>)"
    by code_simp
  have n: "fst (run (\<lambda>q d w. (Inr ([str ''name''], [[1 :: nat]]), d, w))
          (str ''  select name from products;'') \<lparr>store = (), session = (), executed = []\<rparr>) \<notin>
     {Inr WriteOperationDenied, Inr MultipleStatementsDenied, Inr NonSelectDenied}"
    unfolding r
    by (simp add: WriteOperationDenied_def MultipleStatementsDenied_def NonSelectDenied_def)
  show ?thesis
    using n executed_statement_invariant[
        where drv = "\<lambda>q d w. (Inr ([str ''name''], [[1 :: nat]]), d, w)"
        and sql = "str ''  select name from products;''"
        and e = "\<lparr>store = (), session = (), executed = []\<rparr>"]
    unfolding r by simp
qed

text \<open>
  The claim as stated fails on a text that begins with the long s: the guard accepts
  it, and the statement that reaches the store does not begin with \<open>SELECT\<close> in any
  letter case.
\<close>

theorem executed_statement_counterexample:
  "executed (snd (run (\<lambda>q d w. (Inr ([], [] :: nat list list), d, w)) (383 # str ''ELECT 1'')
       \<lparr>store = (), session = (), executed = []\<rparr>)) = [383 # str ''ELECT 1 LIMIT 200''] \<and>
   \<not> begins_with_select ascii_lower (383 # str ''ELECT 1 LIMIT 200'')"
  by code_simp

end
